theory Spec2Isabelle
  imports Complex_Main "HOL-Library.Log_Nat"
begin

section \<open>Python values shared by the modules\<close>

text \<open>
  A Python \<open>str\<close> is a sequence of Unicode code points, so it is modelled as a list of
  code points (\<open>nat\<close>); \<open>len\<close> is \<open>length\<close>. A \<open>datetime\<close> stored in the database is
  naive; it is a number of microseconds since the epoch (\<open>int\<close>).
\<close>

type_synonym pystr = "nat list"

datatype pyerr =
    NameError | ValueError | OverflowError | IndexError | ParserError
  | LibraryError | IntegrityError | PendingRollbackError | SelectorSyntaxError

definition py_isspace :: "nat \<Rightarrow> bool" where
  \<comment> \<open>\<open>str.isspace\<close> of one code point; \<open>str.strip\<close> and the pattern \<open>\s\<close> use the same table.\<close>
  "py_isspace c =
     ((9 \<le> c \<and> c \<le> 13) \<or> (28 \<le> c \<and> c \<le> 32) \<or> c = 133 \<or> c = 160 \<or> c = 5760
      \<or> (8192 \<le> c \<and> c \<le> 8202) \<or> c = 8232 \<or> c = 8233 \<or> c = 8239 \<or> c = 8287
      \<or> c = 12288)"

definition strip :: "pystr \<Rightarrow> pystr" where
  "strip s = rev (dropWhile py_isspace (rev (dropWhile py_isspace s)))"

fun join_space :: "pystr list \<Rightarrow> pystr" where
  \<comment> \<open>\<open>' '.join(tokens)\<close>\<close>
  "join_space [] = []"
| "join_space [t] = t"
| "join_space (t # u # ts) = t @ [32] @ join_space (u # ts)"

fun nth_opt :: "'a list \<Rightarrow> nat \<Rightarrow> 'a option" where
  \<comment> \<open>\<open>xs[i]\<close> for \<open>i \<ge> 0\<close>; \<open>None\<close> stands for IndexError.\<close>
  "nth_opt [] i = None"
| "nth_opt (x # xs) 0 = Some x"
| "nth_opt (x # xs) (Suc i) = nth_opt xs i"

subsection \<open>Floats\<close>

text \<open>
  A Python \<open>float\<close> is an IEEE 754 binary64 number. A finite one is a rational number with
  a significand of at most 53 bits, and the model keeps it as that rational. The true
  division \<open>/\<close> of two ints, and of a float by an int, gives the double nearest to the
  exact quotient, a tie going to the even significand. The exponent range of binary64
  is left out: the quotients taken here come from differences of datetimes, between
  \<open>10 ^ -6 / 60\<close> and \<open>4 * 10 ^ 11\<close>, where every double is normal.
\<close>

definition pow2 :: "int \<Rightarrow> rat" where
  "pow2 e = (if 0 \<le> e then 2 ^ nat e else 1 / 2 ^ nat (- e))"

definition floor_log2 :: "rat \<Rightarrow> int" where
  \<comment> \<open>for \<open>x > 0\<close>, the \<open>k\<close> with \<open>2 ^ k \<le> x < 2 ^ (k + 1)\<close>: a quotient \<open>a / b\<close> lies between
      \<open>2\<close> to the difference of the bit lengths, less one, and \<open>2\<close> to that difference
      plus one\<close>
  "floor_log2 x =
     (case quotient_of x of
        (a, b) \<Rightarrow> (let k = bitlen a - bitlen b in if pow2 k \<le> x then k else k - 1))"

definition round_half_even :: "rat \<Rightarrow> int" where
  \<comment> \<open>the nearest integer, the even one of two equally near\<close>
  "round_half_even x =
     (let n = \<lfloor>x\<rfloor>; r = x - of_int n
      in if r < 1 / 2 then n else if 1 / 2 < r then n + 1 else if even n then n else n + 1)"

definition nearest_double :: "rat \<Rightarrow> rat" where
  \<comment> \<open>the double nearest to \<open>x\<close>: \<open>x\<close> is scaled so that its integer part has 53 bits,
      rounded to an integer, and scaled back\<close>
  "nearest_double x =
     (if x = 0 then 0
      else (let e = floor_log2 \<bar>x\<bar> - 52
            in of_int (round_half_even (x / pow2 e)) * pow2 e))"

section \<open>The persistent store (app/models.py)\<close>

record news_item =
  ni_id :: nat
  agency_id :: nat
  title :: pystr
  url :: pystr
  full_text :: "pystr option"
  publication_timestamp :: "int option"
  crawler_timestamp :: "int option"
  category :: "pystr option"
  main_image_url :: "pystr option"
  position_on_page :: "string option"
  is_duplicate :: bool

record news_group =
  ng_id :: nat
  main_title :: pystr
  creation_timestamp :: int

record news_group_item =
  gi_id :: nat
  news_group_id :: nat
  news_item_id :: nat
  similarity_score :: rat
  added_at :: int

text \<open>
  \<open>AnalysisResult.value\<close> is a text column. For a speed result the task stores
  \<open>str(time_diff)\<close>, the shortest decimal text that reads back as the same float
  (\<open>numeric_value\<close> reads it back with \<open>float(self.value)\<close>); the model keeps the float
  that the text denotes, as the rational number it is. Other analysis types keep their
  text.
\<close>

datatype result_value = Minutes rat | Text_value pystr

record analysis_result =
  ar_id :: nat
  ar_news_item_id :: nat
  analysis_type :: string
  ar_value :: result_value
  analysis_timestamp :: int

record store =
  news_items :: "news_item list"
  news_groups :: "news_group list"
  news_group_items :: "news_group_item list"
  analysis_results :: "analysis_result list"

fun max_id :: "nat list \<Rightarrow> nat" where
  "max_id [] = 0"
| "max_id (x # xs) = max x (max_id xs)"

definition next_id :: "nat list \<Rightarrow> nat" where
  \<comment> \<open>the AUTO_INCREMENT primary key of a new row\<close>
  "next_id ids = Suc (max_id ids)"

definition get_news_item :: "store \<Rightarrow> nat \<Rightarrow> news_item option" where
  \<comment> \<open>\<open>NewsItem.query.get(id)\<close>\<close>
  "get_news_item st i = find (\<lambda>n. ni_id n = i) (news_items st)"

definition get_news_group :: "store \<Rightarrow> nat \<Rightarrow> news_group option" where
  \<comment> \<open>\<open>NewsGroup.query.get(id)\<close>\<close>
  "get_news_group st g = find (\<lambda>n. ng_id n = g) (news_groups st)"

definition first_group_item_of :: "store \<Rightarrow> nat \<Rightarrow> news_group_item option" where
  \<comment> \<open>\<open>NewsGroupItem.query.filter_by(news_item_id=...).first()\<close>\<close>
  "first_group_item_of st i = find (\<lambda>g. news_item_id g = i) (news_group_items st)"

definition insert_news_group :: "store \<Rightarrow> pystr \<Rightarrow> int \<Rightarrow> nat \<times> store" where
  \<comment> \<open>\<open>db.session.add(news_group); db.session.flush()\<close>: the row gets its id.\<close>
  "insert_news_group st t now =
     (let g = next_id (map ng_id (news_groups st))
      in (g, st\<lparr>news_groups := news_groups st @
                 [\<lparr>ng_id = g, main_title = t, creation_timestamp = now\<rparr>]\<rparr>))"

definition insert_group_item :: "store \<Rightarrow> nat \<Rightarrow> nat \<Rightarrow> rat \<Rightarrow> int \<Rightarrow> pyerr + store" where
  \<comment> \<open>Adding a NewsGroupItem and flushing it: the two foreign keys and the constraint
      \<open>unique_group_item\<close> on (news_group_id, news_item_id) are checked by the database.\<close>
  "insert_group_item st g i score now =
     (if g \<notin> set (map ng_id (news_groups st)) \<or> i \<notin> set (map ni_id (news_items st))
         \<or> (\<exists>m \<in> set (news_group_items st). news_group_id m = g \<and> news_item_id m = i)
      then Inl IntegrityError
      else Inr (st\<lparr>news_group_items := news_group_items st @
                  [\<lparr>gi_id = next_id (map gi_id (news_group_items st)), news_group_id = g,
                    news_item_id = i, similarity_score = score, added_at = now\<rparr>]\<rparr>))"

definition set_duplicate :: "store \<Rightarrow> nat \<Rightarrow> store" where
  \<comment> \<open>\<open>news_item.is_duplicate = True\<close>\<close>
  "set_duplicate st i =
     st\<lparr>news_items := map (\<lambda>n. if ni_id n = i then n\<lparr>is_duplicate := True\<rparr> else n)
                           (news_items st)\<rparr>"

section \<open>The analysis task (app/tasks/analysis_tasks.py)\<close>

text \<open>
  The libraries the task calls are parameters: hazm's normalizer, tokenizer and stopword
  list, scikit-learn's TF-IDF vectorizer followed by \<open>cosine_similarity\<close> (one score per
  candidate text, or an exception), and the clock (\<open>utcnow k\<close> is what the \<open>k\<close>-th call of
  \<open>datetime.utcnow()\<close> in one task returns). Scores are doubles in Python; the model
  compares their exact values with 0.75 and 0.9 (no double lies between 0.9 and the
  double the literal \<open>0.9\<close> denotes, so the comparison is the same).
\<close>

record env =
  normalize :: "pystr \<Rightarrow> pyerr + pystr"
  word_tokenize :: "pystr \<Rightarrow> pyerr + pystr list"
  persian_stopwords :: "pystr list"
  tfidf_cosine :: "pystr list \<Rightarrow> pyerr + rat list"
  utcnow :: "nat \<Rightarrow> int"

definition preprocess_persian_text :: "env \<Rightarrow> pystr \<Rightarrow> pystr" where
  "preprocess_persian_text e text =
     (if text = [] then []
      else (case normalize e text of
              Inl err \<Rightarrow> text
            | Inr normalized \<Rightarrow>
                (case word_tokenize e normalized of
                   Inl err \<Rightarrow> text
                 | Inr tokens \<Rightarrow>
                     join_space (filter (\<lambda>token. length token > 2
                                           \<and> token \<notin> set (persian_stopwords e)) tokens))))"

definition text_of_item :: "news_item \<Rightarrow> pystr" where
  \<comment> \<open>\<open>item.title + ' ' + (item.full_text or '')\<close>\<close>
  "text_of_item n = title n @ [32] @ (case full_text n of None \<Rightarrow> [] | Some t \<Rightarrow> t)"

datatype analysis_status =
    Not_found
  | Already_duplicate
  | No_text
  | New_group nat "rat option"
  | Added_to_group nat rat bool
  | New_group_fallback nat
  | Retry

definition microseconds_per_day :: int where
  "microseconds_per_day = 86400000000"

definition create_group_for :: "env \<Rightarrow> store \<Rightarrow> news_item \<Rightarrow> pyerr + nat \<times> store" where
  \<comment> \<open>The block the task repeats four times: a NewsGroup titled as the item, flushed, then
      a NewsGroupItem with similarity 1.0, committed.\<close>
  "create_group_for e st n =
     (case insert_news_group st (title n) (utcnow e 1) of
        (g, st1) \<Rightarrow>
          (case insert_group_item st1 g (ni_id n) 1 (utcnow e 2) of
             Inl err \<Rightarrow> Inl err
           | Inr st2 \<Rightarrow> Inr (g, st2)))"

definition recent_items_of :: "env \<Rightarrow> store \<Rightarrow> news_item \<Rightarrow> news_item list" where
  "recent_items_of e st n =
     (let week_ago = utcnow e 0 - 7 * microseconds_per_day
      in filter (\<lambda>i. ni_id i \<noteq> ni_id n
                     \<and> (case crawler_timestamp i of None \<Rightarrow> False | Some t \<Rightarrow> week_ago \<le> t)
                     \<and> \<not> is_duplicate i) (news_items st))"

definition candidate_texts :: "env \<Rightarrow> news_item list \<Rightarrow> (pystr \<times> nat) list" where
  \<comment> \<open>the loop filling \<open>texts\<close> and \<open>item_ids\<close> after their first entries\<close>
  "candidate_texts e recent_items =
     filter (\<lambda>(t, i). strip t \<noteq> [])
       (map (\<lambda>item. (preprocess_persian_text e (text_of_item item), ni_id item)) recent_items)"

fun argmax :: "rat list \<Rightarrow> pyerr + nat" where
  \<comment> \<open>\<open>np.argmax\<close>: the first index of the greatest entry; an empty array raises.\<close>
  "argmax [] = Inl ValueError"
| "argmax [x] = Inr 0"
| "argmax (x # y # ys) =
     (case argmax (y # ys) of
        Inl err \<Rightarrow> Inl err
      | Inr j \<Rightarrow> if (y # ys) ! j \<le> x then Inr 0 else Inr (Suc j))"

definition new_group :: "env \<Rightarrow> store \<Rightarrow> news_item \<Rightarrow> rat option
    \<Rightarrow> analysis_status \<times> store \<times> nat list" where
  \<comment> \<open>The blocks that create a group and return \<open>new_group\<close>. A database failure there
      reaches the outer handler, straight or through the inner handler's own flush on the
      rolled back session, and the task retries.\<close>
  "new_group e st n score =
     (case create_group_for e st n of
        Inl err \<Rightarrow> (Retry, st, [])
      | Inr (g, st') \<Rightarrow> (New_group g score, st', []))"

definition new_group_fallback :: "env \<Rightarrow> store \<Rightarrow> news_item
    \<Rightarrow> analysis_status \<times> store \<times> nat list" where
  \<comment> \<open>the handler of the inner \<open>try\<close>\<close>
  "new_group_fallback e st n =
     (case create_group_for e st n of
        Inl err \<Rightarrow> (Retry, st, [])
      | Inr (g, st') \<Rightarrow> (New_group_fallback g, st', []))"

definition similarity_threshold :: rat where
  "similarity_threshold = 3 / 4"

definition duplicate_threshold :: rat where
  "duplicate_threshold = 9 / 10"

definition add_to_group :: "env \<Rightarrow> store \<Rightarrow> news_item \<Rightarrow> news_group_item \<Rightarrow> rat
    \<Rightarrow> analysis_status \<times> store \<times> nat list" where
  \<comment> \<open>Lines 149 to 171. A commit the database refuses leaves the session rolled back;
      the handler of the inner \<open>try\<close> then fails at its own flush and the task retries. On
      success \<open>calculate_publication_speed\<close> is dispatched for the group.\<close>
  "add_to_group e st n existing_group_item max_similarity =
     (case insert_group_item st (news_group_id existing_group_item) (ni_id n) max_similarity
             (utcnow e 1) of
        Inl err \<Rightarrow> (Retry, st, [])
      | Inr st1 \<Rightarrow>
          (let st2 = (if max_similarity \<ge> duplicate_threshold
                      then set_duplicate st1 (ni_id n) else st1)
           in (Added_to_group (news_group_id existing_group_item) max_similarity
                 (max_similarity \<ge> duplicate_threshold),
               st2, [news_group_id existing_group_item])))"

definition match_and_group :: "env \<Rightarrow> store \<Rightarrow> news_item \<Rightarrow> pystr list \<Rightarrow> nat list
    \<Rightarrow> analysis_status \<times> store \<times> nat list" where
  \<comment> \<open>The inner \<open>try\<close> (lines 125 to 217): any exception of the similarity computation goes
      to the fallback.\<close>
  "match_and_group e st n texts item_ids =
     (case tfidf_cosine e texts of
        Inl err \<Rightarrow> new_group_fallback e st n
      | Inr similarities \<Rightarrow>
          (case argmax similarities of
             Inl err \<Rightarrow> new_group_fallback e st n
           | Inr max_similarity_idx \<Rightarrow>
               (let max_similarity = similarities ! max_similarity_idx
                in if max_similarity \<ge> similarity_threshold
                   then
                     (case nth_opt item_ids (max_similarity_idx + 1) of
                        None \<Rightarrow> new_group_fallback e st n
                      | Some similar_item_id \<Rightarrow>
                          (case first_group_item_of st similar_item_id of
                             Some existing_group_item \<Rightarrow>
                               add_to_group e st n existing_group_item max_similarity
                           | None \<Rightarrow> new_group e st n (Some max_similarity)))
                   else new_group e st n (Some max_similarity))))"

definition analyze_news_item :: "env \<Rightarrow> store \<Rightarrow> nat \<Rightarrow> analysis_status \<times> store \<times> nat list" where
  \<comment> \<open>The result is the returned status, the store after the task, and the group ids for
      which the speed task was dispatched.\<close>
  "analyze_news_item e st item_id =
     (case get_news_item st item_id of
        None \<Rightarrow> (Not_found, st, [])
      | Some n \<Rightarrow>
          if is_duplicate n then (Already_duplicate, st, [])
          else
            (let item_text = preprocess_persian_text e (text_of_item n)
             in if strip item_text = [] then (No_text, st, [])
                else
                  (let recent_items = recent_items_of e st n
                   in if recent_items = [] then new_group e st n None
                      else
                        (let cands = candidate_texts e recent_items;
                             texts = item_text # map fst cands;
                             item_ids = ni_id n # map snd cands
                         in if length texts < 2 then new_group e st n None
                            else match_and_group e st n texts item_ids))))"

definition group_refs_ok :: "store \<Rightarrow> bool" where
  \<comment> \<open>the foreign key \<open>news_group_items.news_group_id\<close>: every membership row names a
      group of the store\<close>
  "group_refs_ok st =
     list_all (\<lambda>m. news_group_id m \<in> set (map ng_id (news_groups st))) (news_group_items st)"

definition with_new_group :: "env \<Rightarrow> store \<Rightarrow> news_item \<Rightarrow> store" where
  \<comment> \<open>the store with one more group, titled as the item, and the item's founding
      membership of score 1.0 in it\<close>
  "with_new_group e st n =
     st\<lparr>news_groups := news_groups st @
          [\<lparr>ng_id = next_id (map ng_id (news_groups st)), main_title = title n,
            creation_timestamp = utcnow e 1\<rparr>],
        news_group_items := news_group_items st @
          [\<lparr>gi_id = next_id (map gi_id (news_group_items st)),
            news_group_id = next_id (map ng_id (news_groups st)),
            news_item_id = ni_id n, similarity_score = 1, added_at = utcnow e 2\<rparr>]\<rparr>"

section \<open>The publication speed task (app/tasks/analysis_tasks.py)\<close>

datatype speed_status = Group_not_found | Insufficient_items | Success nat nat | Speed_error

definition speed_to_publish :: string where
  "speed_to_publish = ''speed_to_publish''"

definition rows_of :: "news_group_item list \<Rightarrow> nat \<Rightarrow> news_item
    \<Rightarrow> (int \<times> news_item \<times> news_group_item) list" where
  \<comment> \<open>the rows the join gives for one item: none without a publication timestamp, else
      one for each membership of the item in the group, kept with the timestamp\<close>
  "rows_of gis group_id n =
     (case publication_timestamp n of
        None \<Rightarrow> []
      | Some t \<Rightarrow>
          map (\<lambda>m. (t, n, m))
            (filter (\<lambda>m. news_item_id m = ni_id n \<and> news_group_id m = group_id) gis))"

definition timestamped_members :: "store \<Rightarrow> nat \<Rightarrow> (int \<times> news_item \<times> news_group_item) list" where
  \<comment> \<open>The query of lines 232 to 237: NewsItem joined with NewsGroupItem, the rows of the
      group whose item has a publication timestamp, in ascending order of it. Rows of
      equal timestamp come in an order the database chooses; the model keeps the order
      of the tables (a stable sort).\<close>
  "timestamped_members st group_id =
     sort_key fst (concat (map (rows_of (news_group_items st) group_id) (news_items st)))"

definition row_id :: "int \<times> news_item \<times> news_group_item \<Rightarrow> nat" where
  \<comment> \<open>the item id of a row\<close>
  "row_id r = ni_id (fst (snd r))"

definition speed_result_of :: "store \<Rightarrow> nat \<Rightarrow> analysis_result option" where
  \<comment> \<open>\<open>AnalysisResult.query.filter_by(news_item_id=..., analysis_type='speed_to_publish')
      .first()\<close>; the session flushes before a query, so rows added earlier in the same
      loop are found.\<close>
  "speed_result_of st i =
     find (\<lambda>r. ar_news_item_id r = i \<and> analysis_type r = speed_to_publish)
       (analysis_results st)"

definition total_seconds :: "int \<Rightarrow> rat" where
  \<comment> \<open>\<open>timedelta.total_seconds()\<close> of a difference of \<open>us\<close> microseconds: the int of
      microseconds divided by \<open>10**6\<close>, a float\<close>
  "total_seconds us = nearest_double (of_int us / 1000000)"

definition minutes_between :: "int \<Rightarrow> int \<Rightarrow> rat" where
  \<comment> \<open>line 251, \<open>(t - first_time).total_seconds() / 60\<close>, for timestamps in
      microseconds: a float divided by an int, a float again\<close>
  "minutes_between first_time t = nearest_double (total_seconds (t - first_time) / 60)"

definition add_speed_result :: "env \<Rightarrow> store \<Rightarrow> nat \<Rightarrow> rat \<Rightarrow> nat \<Rightarrow> store" where
  "add_speed_result e st i time_diff k =
     st\<lparr>analysis_results := analysis_results st @
          [\<lparr>ar_id = next_id (map ar_id (analysis_results st)), ar_news_item_id = i,
            analysis_type = speed_to_publish, ar_value = Minutes time_diff,
            analysis_timestamp = utcnow e k\<rparr>]\<rparr>"

fun speed_loop :: "env \<Rightarrow> int \<Rightarrow> (int \<times> news_item \<times> news_group_item) list
    \<Rightarrow> store \<times> nat \<Rightarrow> store \<times> nat" where
  \<comment> \<open>The loop of lines 248 to 267 over \<open>group_items[1:]\<close>, carrying the store and
      \<open>speeds_calculated\<close>. The test \<open>if news_item.publication_timestamp\<close> holds for every
      row of the query (a datetime is never falsy).\<close>
  "speed_loop e first_time [] acc = acc"
| "speed_loop e first_time ((t, news_item, group_item) # rest) (st, speeds_calculated) =
     (let time_diff = minutes_between first_time t
      in case speed_result_of st (ni_id news_item) of
           Some existing_result \<Rightarrow> speed_loop e first_time rest (st, speeds_calculated)
         | None \<Rightarrow>
             speed_loop e first_time rest
               (add_speed_result e st (ni_id news_item) time_diff speeds_calculated,
                Suc speeds_calculated))"

definition calculate_publication_speed :: "env \<Rightarrow> store \<Rightarrow> nat \<Rightarrow> speed_status \<times> store" where
  "calculate_publication_speed e st group_id =
     (case get_news_group st group_id of
        None \<Rightarrow> (Group_not_found, st)
      | Some g \<Rightarrow>
          (let group_items = timestamped_members st group_id
           in if length group_items < 2 then (Insufficient_items, st)
              else (case group_items of
                      [] \<Rightarrow> (Speed_error, st)
                    | (first_time, first_item, first_group_item) # rest \<Rightarrow>
                        (case speed_loop e first_time rest (st, 0) of
                           (st', speeds_calculated) \<Rightarrow>
                             (Success group_id speeds_calculated, st')))))"

section \<open>Saving scraped items (app/tasks/crawler_tasks.py)\<close>

record scraped_item =
  s_title :: pystr
  s_url :: "pystr option"
  s_full_text :: "pystr option"
  s_publication_timestamp :: "int option"
  s_category :: "pystr option"
  s_main_image_url :: "pystr option"
  s_position_on_page :: string

record crawl_counts =
  saved_count :: nat
  duplicate_count :: nat
  error_count :: nat

definition find_by_url :: "store \<Rightarrow> pystr option \<Rightarrow> news_item option" where
  \<comment> \<open>\<open>NewsItem.query.filter_by(url=item_data['url']).first()\<close>; a missing URL compares
      with no row.\<close>
  "find_by_url st u =
     (case u of None \<Rightarrow> None | Some v \<Rightarrow> find (\<lambda>n. url n = v) (news_items st))"

definition insert_news_item :: "store \<Rightarrow> nat \<Rightarrow> scraped_item \<Rightarrow> int \<Rightarrow> pyerr + nat \<times> store" where
  \<comment> \<open>\<open>db.session.add(news_item); db.session.commit()\<close>: the column \<open>url\<close> is NOT NULL and
      UNIQUE (models.py, line 40). Column lengths are not modelled.\<close>
  "insert_news_item st agency item_data now =
     (case s_url item_data of
        None \<Rightarrow> Inl IntegrityError
      | Some u \<Rightarrow>
          if u \<in> set (map url (news_items st)) then Inl IntegrityError
          else (let i = next_id (map ni_id (news_items st))
                in Inr (i, st\<lparr>news_items := news_items st @
                          [\<lparr>ni_id = i, agency_id = agency, title = s_title item_data,
                            url = u, full_text = s_full_text item_data,
                            publication_timestamp = s_publication_timestamp item_data,
                            crawler_timestamp = Some now,
                            category = s_category item_data,
                            main_image_url = s_main_image_url item_data,
                            position_on_page = Some (s_position_on_page item_data),
                            is_duplicate = False\<rparr>]\<rparr>)))"

definition save_item :: "env \<Rightarrow> nat \<Rightarrow> nat \<Rightarrow> scraped_item \<Rightarrow> store \<times> crawl_counts \<times> nat list
    \<Rightarrow> store \<times> crawl_counts \<times> nat list" where
  \<comment> \<open>One round of the loop of \<open>crawl_agency\<close> (lines 41 to 76) for the \<open>k\<close>-th scraped
      item. The state is the store, the three counters and the ids for which
      \<open>analyze_news_item\<close> was dispatched.\<close>
  "save_item e agency k item_data acc =
     (case acc of
        (st, c, jobs) \<Rightarrow>
          (case find_by_url st (s_url item_data) of
             Some existing_item \<Rightarrow> (st, c\<lparr>duplicate_count := duplicate_count c + 1\<rparr>, jobs)
           | None \<Rightarrow>
               (case insert_news_item st agency item_data (utcnow e k) of
                  Inl err \<Rightarrow>
                    if err = IntegrityError
                    then (st, c\<lparr>duplicate_count := duplicate_count c + 1\<rparr>, jobs)
                    else (st, c\<lparr>error_count := error_count c + 1\<rparr>, jobs)
                | Inr (i, st') \<Rightarrow> (st', c\<lparr>saved_count := saved_count c + 1\<rparr>, jobs @ [i]))))"

fun save_items :: "env \<Rightarrow> nat \<Rightarrow> nat \<Rightarrow> scraped_item list \<Rightarrow> store \<times> crawl_counts \<times> nat list
    \<Rightarrow> store \<times> crawl_counts \<times> nat list" where
  "save_items e agency k [] acc = acc"
| "save_items e agency k (item_data # rest) acc =
     save_items e agency (Suc k) rest (save_item e agency k item_data acc)"

definition crawl_agency_items :: "env \<Rightarrow> nat \<Rightarrow> scraped_item list \<Rightarrow> store
    \<Rightarrow> store \<times> crawl_counts \<times> nat list" where
  \<comment> \<open>the loop from its initial counters\<close>
  "crawl_agency_items e agency scraped st =
     save_items e agency 0 scraped
       (st, \<lparr>saved_count = 0, duplicate_count = 0, error_count = 0\<rparr>, [])"

section \<open>The scraper (app/scrapers/generic_scraper.py)\<close>

subsection \<open>Names of the module\<close>

text \<open>
  The names the module binds at its top level (lines 1 to 13): its imports, \<open>logger\<close> and
  the class. A name a method uses that is neither local nor in this list nor a builtin
  raises NameError when it is evaluated.
\<close>

definition module_names :: "string list" where
  "module_names =
     [''json'', ''requests'', ''BeautifulSoup'', ''datetime'', ''logging'', ''re'',
      ''urljoin'', ''urlparse'', ''date_parser'', ''pytz'', ''logger'', ''GenericScraper'']"

definition builtin_names :: "string list" where
  \<comment> \<open>the builtins the methods modelled here use\<close>
  "builtin_names = [''int'', ''enumerate'', ''len'', ''Exception'']"

definition lookup_name :: "string \<Rightarrow> pyerr + unit" where
  "lookup_name x =
     (if x \<in> set module_names \<or> x \<in> set builtin_names then Inr () else Inl NameError)"

subsection \<open>Dates\<close>

text \<open>
  An aware datetime is its wall clock reading and its offset from UTC, both in
  microseconds. What the scraper takes from its libraries is a parameter: dateutil's
  parser (a wall clock reading and, when the text carries one, an offset), the offsets
  pytz gives Asia/Tehran (at a UTC instant for \<open>datetime.now(tz)\<close>, at a wall clock
  reading for \<open>localize\<close>), the decimal digits of Unicode with their values (the class \<open>\d\<close>
  of a str pattern, and what \<open>int\<close> reads), the limit of \<open>int\<close> on the number of digits
  (0 for none) and the clock (\<open>now_utc k\<close> is the \<open>k\<close>-th reading in one call).
\<close>

record aware_datetime =
  wall :: int
  utcoffset :: int

record scraper_env =
  dateutil_parse :: "pystr \<Rightarrow> pyerr + int \<times> int option"
  tehran_offset_at_utc :: "int \<Rightarrow> int"
  tehran_localize :: "int \<Rightarrow> pyerr + int"
  decimal_value :: "nat \<Rightarrow> nat option"
  max_str_digits :: nat
  now_utc :: "nat \<Rightarrow> int"

definition datetime_min :: int where
  \<comment> \<open>0001-01-01T00:00:00\<close>
  "datetime_min = - 62135596800000000"

definition datetime_max :: int where
  \<comment> \<open>9999-12-31T23:59:59.999999\<close>
  "datetime_max = 253402300799999999"

definition in_range :: "int \<Rightarrow> pyerr + int" where
  "in_range t = (if datetime_min \<le> t \<and> t \<le> datetime_max then Inr t else Inl OverflowError)"

definition astimezone_utc :: "aware_datetime \<Rightarrow> pyerr + int" where
  \<comment> \<open>\<open>d.astimezone(pytz.UTC)\<close>: the instant, as a UTC reading\<close>
  "astimezone_utc d = in_range (wall d - utcoffset d)"

definition now_in_tehran :: "scraper_env \<Rightarrow> nat \<Rightarrow> aware_datetime" where
  \<comment> \<open>\<open>datetime.now(self.tehran_tz)\<close> at the \<open>k\<close>-th reading of the clock\<close>
  "now_in_tehran e k =
     \<lparr>wall = now_utc e k + tehran_offset_at_utc e (now_utc e k),
      utcoffset = tehran_offset_at_utc e (now_utc e k)\<rparr>"

definition microseconds_of :: "string \<Rightarrow> int" where
  "microseconds_of unit =
     (if unit = ''minutes'' then 60000000
      else if unit = ''hours'' then 3600000000
      else 86400000000)"

definition timedelta :: "string \<Rightarrow> int \<Rightarrow> pyerr + int" where
  \<comment> \<open>\<open>timedelta(minutes=v)\<close>, \<open>timedelta(hours=v)\<close>, \<open>timedelta(days=v)\<close>: at most 999999999
      days\<close>
  "timedelta unit v =
     (if \<bar>v * microseconds_of unit\<bar> \<le> 999999999 * 86400000000 + 86399999999
      then Inr (v * microseconds_of unit) else Inl OverflowError)"

definition minus_timedelta :: "aware_datetime \<Rightarrow> int \<Rightarrow> pyerr + aware_datetime" where
  \<comment> \<open>\<open>now - delta\<close> keeps the tzinfo and moves the wall clock reading\<close>
  "minus_timedelta d delta =
     (case in_range (wall d - delta) of
        Inl err \<Rightarrow> Inl err
      | Inr w \<Rightarrow> Inr (d\<lparr>wall := w\<rparr>))"

subsection \<open>The relative patterns\<close>

text \<open>
  Each pattern is \<open>(\d+)\s*W1\s*W2\<close> for two Persian words. The matcher follows the
  regular expression engine: a greedy repetition takes as much as it can and gives back
  one character at a time when the rest fails; \<open>re.search\<close> tries the start positions from
  the left. The result is group 1.
\<close>

definition literal_then :: "pystr \<Rightarrow> (pystr \<Rightarrow> bool) \<Rightarrow> pystr \<Rightarrow> bool" where
  "literal_then w k s = (take (length w) s = w \<and> k (drop (length w) s))"

fun spaces_then :: "(pystr \<Rightarrow> bool) \<Rightarrow> pystr \<Rightarrow> bool" where
  "spaces_then k [] = k []"
| "spaces_then k (c # cs) = ((py_isspace c \<and> spaces_then k cs) \<or> k (c # cs))"

fun digits_then :: "(nat \<Rightarrow> nat option) \<Rightarrow> (pystr \<Rightarrow> bool) \<Rightarrow> pystr \<Rightarrow> pystr option" where
  "digits_then dv k [] = None"
| "digits_then dv k (c # cs) =
     (if dv c = None then None
      else (case digits_then dv k cs of
              Some ds \<Rightarrow> Some (c # ds)
            | None \<Rightarrow> if k cs then Some [c] else None))"

definition match_at :: "(nat \<Rightarrow> nat option) \<Rightarrow> pystr \<Rightarrow> pystr \<Rightarrow> pystr \<Rightarrow> pystr option" where
  "match_at dv w1 w2 s =
     digits_then dv (spaces_then (literal_then w1 (spaces_then (literal_then w2 (\<lambda>r. True))))) s"

fun re_search :: "(nat \<Rightarrow> nat option) \<Rightarrow> pystr \<Rightarrow> pystr \<Rightarrow> pystr \<Rightarrow> pystr option" where
  "re_search dv w1 w2 [] = None"
| "re_search dv w1 w2 (c # cs) =
     (case match_at dv w1 w2 (c # cs) of
        Some g \<Rightarrow> Some g
      | None \<Rightarrow> re_search dv w1 w2 cs)"

definition pish :: pystr where
  \<comment> \<open>the word for "ago": U+067E U+06CC U+0634\<close>
  "pish = [1662, 1740, 1588]"

definition daghighe :: pystr where
  \<comment> \<open>"minute": U+062F U+0642 U+06CC U+0642 U+0647\<close>
  "daghighe = [1583, 1602, 1740, 1602, 1607]"

definition saat :: pystr where
  \<comment> \<open>"hour": U+0633 U+0627 U+0639 U+062A\<close>
  "saat = [1587, 1575, 1593, 1578]"

definition rooz :: pystr where
  \<comment> \<open>"day": U+0631 U+0648 U+0632\<close>
  "rooz = [1585, 1608, 1586]"

definition relative_patterns :: "(pystr \<times> string) list" where
  "relative_patterns = [(daghighe, ''minutes''), (saat, ''hours''), (rooz, ''days'')]"

definition py_int :: "scraper_env \<Rightarrow> pystr \<Rightarrow> pyerr + int" where
  \<comment> \<open>\<open>int(match.group(1))\<close> of a string of decimal digits\<close>
  "py_int e ds =
     (if max_str_digits e \<noteq> 0 \<and> length ds > max_str_digits e then Inl ValueError
      else Inr (foldl (\<lambda>acc c. 10 * acc + int (case decimal_value e c of None \<Rightarrow> 0 | Some d \<Rightarrow> d))
                  0 ds))"

subsection \<open>The date parser\<close>

fun try_relative :: "scraper_env \<Rightarrow> (pystr \<times> string) list \<Rightarrow> pystr \<Rightarrow> pyerr \<times> nat + int option" where
  \<comment> \<open>The loop of lines 105 to 116. \<open>Inr None\<close>: no pattern matched. An exception is
      returned with the number of clock readings made before it.\<close>
  "try_relative e [] s = Inr None"
| "try_relative e ((w, unit) # rest) s =
     (case re_search (decimal_value e) w pish s of
        None \<Rightarrow> try_relative e rest s
      | Some g \<Rightarrow>
          (case py_int e g of
             Inl err \<Rightarrow> Inl (err, 0)
           | Inr v \<Rightarrow>
               (let now = now_in_tehran e 0
                in case lookup_name ''timedelta'' of
                     Inl err \<Rightarrow> Inl (err, 1)
                   | Inr u \<Rightarrow>
                       (case timedelta unit v of
                          Inl err \<Rightarrow> Inl (err, 1)
                        | Inr delta \<Rightarrow>
                            (case minus_timedelta now delta of
                               Inl err \<Rightarrow> Inl (err, 1)
                             | Inr parsed_date \<Rightarrow>
                                 (case astimezone_utc parsed_date of
                                    Inl err \<Rightarrow> Inl (err, 1)
                                  | Inr t \<Rightarrow> Inr (Some t)))))))"

definition parse_absolute :: "scraper_env \<Rightarrow> pystr \<Rightarrow> pyerr \<times> nat + int" where
  \<comment> \<open>lines 93 to 96\<close>
  "parse_absolute e s =
     (case dateutil_parse e s of
        Inl err \<Rightarrow> Inl (err, 0)
      | Inr (w, tz) \<Rightarrow>
          (case tz of
             Some off \<Rightarrow>
               (case astimezone_utc \<lparr>wall = w, utcoffset = off\<rparr> of
                  Inl err \<Rightarrow> Inl (err, 0) | Inr t \<Rightarrow> Inr t)
           | None \<Rightarrow>
               (case tehran_localize e w of
                  Inl err \<Rightarrow> Inl (err, 0)
                | Inr off \<Rightarrow>
                    (case astimezone_utc \<lparr>wall = w, utcoffset = off\<rparr> of
                       Inl err \<Rightarrow> Inl (err, 0) | Inr t \<Rightarrow> Inr t))))"

definition parse_date_body :: "scraper_env \<Rightarrow> pystr \<Rightarrow> pyerr \<times> nat + int" where
  \<comment> \<open>The body of the \<open>try\<close>, lines 91 to 120; 84 is the letter T and 45 the hyphen.\<close>
  "parse_date_body e s =
     (if 84 \<in> set s \<or> 45 \<in> set s then parse_absolute e s
      else (case try_relative e relative_patterns s of
              Inl err \<Rightarrow> Inl err
            | Inr (Some t) \<Rightarrow> Inr t
            | Inr None \<Rightarrow> Inr (now_utc e 0)))"

definition parse_date :: "scraper_env \<Rightarrow> pystr \<Rightarrow> int option" where
  \<comment> \<open>\<open>_parse_date\<close>: \<open>None\<close> is Python's None, \<open>Some t\<close> the aware UTC datetime of instant
      \<open>t\<close>. The handler of line 122 returns the clock's next reading.\<close>
  "parse_date e date_string =
     (if date_string = [] then None
      else (case parse_date_body e (strip date_string) of
              Inl (err, k) \<Rightarrow> Some (now_utc e k)
            | Inr t \<Rightarrow> Some t))"

subsection \<open>The position on the page\<close>

text \<open>
  A parsed page is a tree of tags and strings. BeautifulSoup compares two tags by name,
  attributes and contents, which is the equality of the datatype; the type of the
  attributes is left open. \<open>find_all()\<close> lists the tags below a tag, in document order.
\<close>

datatype 'a element = Tag string 'a "'a element list" | NavigableString pystr

fun find_all :: "'a element \<Rightarrow> 'a element list" where
  "find_all (NavigableString s) = []"
| "find_all (Tag nm a cs) =
     concat (map (\<lambda>c. (case c of Tag x y z \<Rightarrow> [c] | NavigableString s \<Rightarrow> []) @ find_all c) cs)"

fun first_index :: "('a \<Rightarrow> bool) \<Rightarrow> 'a list \<Rightarrow> nat option" where
  \<comment> \<open>the loop of lines 134 to 138: the first index whose entry passes, if any\<close>
  "first_index p [] = None"
| "first_index p (x # xs) =
     (if p x then Some 0 else map_option Suc (first_index p xs))"

definition position_of_index :: "nat \<Rightarrow> nat \<Rightarrow> string" where
  \<comment> \<open>lines 142 to 147, for an index that was found\<close>
  "position_of_index element_index n =
     (if element_index < 3 then ''homepage_top''
      else if element_index < n div 2 then ''homepage_middle''
      else ''homepage_bottom'')"

definition determine_position :: "pyerr + 'a element list \<Rightarrow> 'a element \<Rightarrow> string" where
  \<comment> \<open>\<open>_determine_position\<close>; the first argument is what
      \<open>soup.select(self.config.get('news_list_selector', ''))\<close> gives: the selected tags or
      an exception.\<close>
  "determine_position selected element =
     (case selected of
        Inl err \<Rightarrow> ''unknown''
      | Inr all_news \<Rightarrow>
          if all_news = [] then ''unknown''
          else (case first_index (\<lambda>news_elem. element \<in> set (find_all news_elem)) all_news of
                  None \<Rightarrow> ''unknown''
                | Some element_index \<Rightarrow> position_of_index element_index (length all_news)))"

section \<open>Measures and conditions on the store\<close>

definition member_ids :: "store \<Rightarrow> nat \<Rightarrow> nat list" where
  \<comment> \<open>the ids of the items of a group\<close>
  "member_ids st g =
     map news_item_id (filter (\<lambda>m. news_group_id m = g) (news_group_items st))"

definition speed_results :: "store \<Rightarrow> analysis_result list" where
  "speed_results st = filter (\<lambda>r. analysis_type r = speed_to_publish) (analysis_results st)"

definition speed_results_for :: "store \<Rightarrow> nat \<Rightarrow> analysis_result list" where
  \<comment> \<open>the speed results of one item\<close>
  "speed_results_for st i = filter (\<lambda>r. ar_news_item_id r = i) (speed_results st)"





section \<open>Sample data\<close>

definition ascii :: "string \<Rightarrow> pystr" where
  "ascii s = map of_char s"

fun split_spaces :: "pystr \<Rightarrow> pystr \<Rightarrow> pystr list" where
  \<comment> \<open>a tokenizer for the samples: the words between white space\<close>
  "split_spaces w [] = (if w = [] then [] else [w])"
| "split_spaces w (c # cs) =
     (if py_isspace c then (if w = [] then split_spaces [] cs else w # split_spaces [] cs)
      else split_spaces (w @ [c]) cs)"

definition sample_env :: "rat \<Rightarrow> env" where
  \<comment> \<open>every candidate scores \<open>s\<close>; the clock stands at 1000\<close>
  "sample_env s =
     \<lparr>normalize = Inr, word_tokenize = (\<lambda>t. Inr (split_spaces [] t)), persian_stopwords = [],
      tfidf_cosine = (\<lambda>texts. Inr (replicate (length texts - 1) s)), utcnow = (\<lambda>k. 1000)\<rparr>"

definition sample_item :: "nat \<Rightarrow> pystr \<Rightarrow> int \<Rightarrow> bool \<Rightarrow> news_item" where
  "sample_item i t published dup =
     \<lparr>ni_id = i, agency_id = 1, title = t, url = ascii ''http://a/'' @ [48 + i],
      full_text = None, publication_timestamp = Some published, crawler_timestamp = Some 1000,
      category = None, main_image_url = None, position_on_page = Some ''unknown'',
      is_duplicate = dup\<rparr>"

definition minute :: int where
  "minute = 60000000"

definition flood_late :: news_item where
  "flood_late = sample_item 1 (ascii ''flood warning north'') (47 * minute) False"

definition flood_early :: news_item where
  "flood_early = sample_item 2 (ascii ''north flood warning'') 0 False"

definition short_title :: news_item where
  \<comment> \<open>a title of tokens of at most two letters\<close>
  "short_title = sample_item 3 (ascii ''up we go'') 0 False"

definition flagged :: news_item where
  "flagged = sample_item 4 (ascii ''flood warning north'') 0 True"

definition two_items :: store where
  \<comment> \<open>two similar items, none analysed yet\<close>
  "two_items =
     \<lparr>news_items = [flood_late, flood_early], news_groups = [], news_group_items = [],
      analysis_results = []\<rparr>"

definition grouped_first :: store where
  \<comment> \<open>the first item founded group 1, the second is new\<close>
  "grouped_first =
     \<lparr>news_items = [flood_late, flood_early],
      news_groups = [\<lparr>ng_id = 1, main_title = title flood_late, creation_timestamp = 1000\<rparr>],
      news_group_items = [\<lparr>gi_id = 1, news_group_id = 1, news_item_id = 1,
                           similarity_score = 1, added_at = 1000\<rparr>],
      analysis_results = []\<rparr>"

definition both_grouped :: store where
  \<comment> \<open>both items in group 1, no speed result yet\<close>
  "both_grouped =
     grouped_first\<lparr>news_group_items :=
       [\<lparr>gi_id = 1, news_group_id = 1, news_item_id = 1, similarity_score = 1, added_at = 1000\<rparr>,
        \<lparr>gi_id = 2, news_group_id = 1, news_item_id = 2, similarity_score = 4 / 5,
          added_at = 1000\<rparr>]\<rparr>"

definition odd_items :: store where
  "odd_items =
     \<lparr>news_items = [short_title, flagged], news_groups = [], news_group_items = [],
      analysis_results = []\<rparr>"

definition sample_digit :: "nat \<Rightarrow> nat option" where
  \<comment> \<open>the decimal digits of ASCII, Arabic-Indic and Extended Arabic-Indic (Persian)\<close>
  "sample_digit c =
     (if 48 \<le> c \<and> c \<le> 57 then Some (c - 48)
      else if 1632 \<le> c \<and> c \<le> 1641 then Some (c - 1632)
      else if 1776 \<le> c \<and> c \<le> 1785 then Some (c - 1776)
      else None)"

definition noon_in_tehran :: int where
  \<comment> \<open>2024-01-01T12:00:00+03:30, that is 2024-01-01T08:30:00Z, in microseconds\<close>
  "noon_in_tehran = 1704097800000000"

definition iso_noon :: pystr where
  \<comment> \<open>an absolute date without a zone; as a naive reading it is 1704110400000000\<close>
  "iso_noon = map of_char ''2024-01-01T12:00:00''"

definition tehran_env :: scraper_env where
  \<comment> \<open>Asia/Tehran at UTC+3:30, the clock standing at the reference instant, a date parser
      that reads one text\<close>
  "tehran_env =
     \<lparr>dateutil_parse =
        (\<lambda>s. if s = iso_noon then Inr (1704110400000000, None) else Inl ParserError),
      tehran_offset_at_utc = (\<lambda>t. 12600000000),
      tehran_localize = (\<lambda>w. Inr 12600000000),
      decimal_value = sample_digit,
      max_str_digits = 4300,
      now_utc = (\<lambda>k. noon_in_tehran)\<rparr>"

definition two_hours_ago :: pystr where
  \<comment> \<open>the digit 2, a space, the word for "hour", a space, the word for "ago"\<close>
  "two_hours_ago = [50, 32] @ saat @ [32] @ pish"

definition leaf :: "nat \<Rightarrow> nat element" where
  "leaf k = Tag ''a'' k []"

definition nested_listing :: "nat element list" where
  \<comment> \<open>eleven selected tags; the sixth wraps the seventh\<close>
  "nested_listing =
     [leaf 0, leaf 1, leaf 2, leaf 3, leaf 4, Tag ''div'' 5 [leaf 6], leaf 6, leaf 7, leaf 8,
      leaf 9, leaf 10]"

definition news_entry :: "nat \<Rightarrow> nat element" where
  \<comment> \<open>a list entry that holds a link with the title\<close>
  "news_entry k = Tag ''li'' k [Tag ''a'' k [NavigableString (ascii ''title'')]]"

definition flat_listing :: "nat element list" where
  \<comment> \<open>four selected tags side by side, none inside another\<close>
  "flat_listing = [news_entry 0, news_entry 1, news_entry 2, news_entry 3]"

definition scraped :: "pystr \<Rightarrow> pystr option \<Rightarrow> scraped_item" where
  "scraped t u =
     \<lparr>s_title = t, s_url = u, s_full_text = None, s_publication_timestamp = None,
      s_category = None, s_main_image_url = None, s_position_on_page = ''unknown''\<rparr>"

definition scraped_pass :: "scraped_item list" where
  \<comment> \<open>a URL of the store, a new URL, the new URL again, and an item without URL\<close>
  "scraped_pass =
     [scraped (ascii ''flood warning north'') (Some (ascii ''http://a/1'')),
      scraped (ascii ''storm'') (Some (ascii ''http://a/9'')),
      scraped (ascii ''storm again'') (Some (ascii ''http://a/9'')),
      scraped (ascii ''no link'') None]"







section \<open>Facts about the store\<close>

lemma max_id_ge: "x \<in> set xs \<Longrightarrow> x \<le> max_id xs"
  by (induction xs) auto

lemma next_id_fresh: "next_id xs \<notin> set xs"
  using max_id_ge [of "next_id xs" xs] by (auto simp: next_id_def)

lemma get_news_item_Some:
  "get_news_item st i = Some n \<Longrightarrow> ni_id n = i \<and> n \<in> set (news_items st)"
  by (auto simp: get_news_item_def find_Some_iff in_set_conv_nth)

lemma create_group_for_ok:
  assumes "n \<in> set (news_items st)" and "group_refs_ok st"
  shows "create_group_for e st n =
     Inr (next_id (map ng_id (news_groups st)), with_new_group e st n)"
proof -
  have fresh: "next_id (map ng_id (news_groups st)) \<notin> ng_id ` set (news_groups st)"
    using next_id_fresh [of "map ng_id (news_groups st)"] by simp
  have nomem: "\<forall>m \<in> set (news_group_items st).
      news_group_id m \<noteq> next_id (map ng_id (news_groups st))"
  proof
    fix m assume "m \<in> set (news_group_items st)"
    then have "news_group_id m \<in> ng_id ` set (news_groups st)"
      using assms(2) by (simp add: group_refs_ok_def list_all_iff)
    then show "news_group_id m \<noteq> next_id (map ng_id (news_groups st))"
      using fresh by metis
  qed
  show ?thesis
    using assms(1) nomem
    by (simp add: create_group_for_def insert_news_group_def insert_group_item_def Let_def
        with_new_group_def)
qed

lemma argmax_in_range: "xs \<noteq> [] \<Longrightarrow> \<exists>j. argmax xs = Inr j \<and> j < length xs"
  by (induction xs rule: argmax.induct) (auto split: sum.splits)

lemma argmax_first_max:
  assumes "k < length xs" and "\<forall>j < length xs. xs ! j \<le> xs ! k" and "\<forall>j < k. xs ! j < xs ! k"
  shows "argmax xs = Inr k"
  using assms
proof (induction xs arbitrary: k rule: argmax.induct)
  case 1
  then show ?case by simp
next
  case (2 x)
  then show ?case by simp
next
  case (3 x y ys)
  obtain j where j: "argmax (y # ys) = Inr j" "j < length (y # ys)"
    using argmax_in_range [of "y # ys"] by auto
  show ?case
  proof (cases k)
    case 0
    have "(x # y # ys) ! Suc j \<le> (x # y # ys) ! 0"
      using "3.prems"(2) j(2) 0 by (metis Suc_less_eq length_Cons)
    then show ?thesis using j 0 by simp
  next
    case (Suc k')
    have k': "k' < length (y # ys)" using "3.prems"(1) Suc by simp
    have a: "\<forall>i < length (y # ys). (y # ys) ! i \<le> (y # ys) ! k'"
    proof (intro allI impI)
      fix i assume "i < length (y # ys)"
      then have "(x # y # ys) ! Suc i \<le> (x # y # ys) ! k"
        using "3.prems"(2) by (metis Suc_less_eq length_Cons)
      then show "(y # ys) ! i \<le> (y # ys) ! k'" using Suc by simp
    qed
    have b: "\<forall>i < k'. (y # ys) ! i < (y # ys) ! k'"
    proof (intro allI impI)
      fix i assume "i < k'"
      then have "(x # y # ys) ! Suc i < (x # y # ys) ! k"
        using "3.prems"(3) Suc by (metis Suc_less_eq)
      then show "(y # ys) ! i < (y # ys) ! k'" using Suc by simp
    qed
    have jk: "argmax (y # ys) = Inr k'" using "3.IH" [OF k' a b] .
    have "(x # y # ys) ! 0 < (x # y # ys) ! k" using "3.prems"(3) Suc by blast
    then have "\<not> (y # ys) ! k' \<le> x" using Suc by simp
    then show ?thesis using jk Suc by simp
  qed
qed

lemma nth_opt_nth: "i < length xs \<Longrightarrow> nth_opt xs i = Some (xs ! i)"
  by (induction xs i rule: nth_opt.induct) auto

lemma ascii_simps [simp]: "ascii [] = []" "ascii (c # cs) = of_char c # ascii cs"
  by (simp_all add: ascii_def)

lemma find_set_duplicate:
  "find (\<lambda>x. ni_id x = i) xs = Some n \<Longrightarrow>
   find (\<lambda>x. ni_id x = i) (map (\<lambda>x. if ni_id x = i then x\<lparr>is_duplicate := True\<rparr> else x) xs)
     = Some (n\<lparr>is_duplicate := True\<rparr>)"
  by (induction xs) (auto split: if_splits)

section \<open>The analysis task\<close>

lemma match_and_group_best:
  assumes "tfidf_cosine e texts = Inr sims"
    and "k < length sims" and "\<forall>j < length sims. sims ! j \<le> sims ! k"
    and "\<forall>j < k. sims ! j < sims ! k"
    and "similarity_threshold \<le> sims ! k"
    and "Suc k < length item_ids"
  shows "match_and_group e st n texts item_ids =
     (case first_group_item_of st (item_ids ! Suc k) of
        Some existing_group_item \<Rightarrow> add_to_group e st n existing_group_item (sims ! k)
      | None \<Rightarrow> new_group e st n (Some (sims ! k)))"
  using assms argmax_first_max [of k sims] nth_opt_nth [of "Suc k" item_ids]
  by (simp add: match_and_group_def Let_def)

lemma analyze_reaches_match:
  assumes "get_news_item st i = Some n" and "\<not> is_duplicate n"
    and "strip (preprocess_persian_text e (text_of_item n)) \<noteq> []"
    and "candidate_texts e (recent_items_of e st n) \<noteq> []"
  shows "analyze_news_item e st i =
     match_and_group e st n
       (preprocess_persian_text e (text_of_item n)
          # map fst (candidate_texts e (recent_items_of e st n)))
       (ni_id n # map snd (candidate_texts e (recent_items_of e st n)))"
proof -
  have "recent_items_of e st n \<noteq> []"
    using assms(4) by (auto simp: candidate_texts_def)
  then show ?thesis using assms by (simp add: analyze_news_item_def Let_def)
qed

lemma flood_early_text:
  "preprocess_persian_text (sample_env s) (text_of_item flood_early)
     = ascii ''north flood warning''"
  by (simp add: preprocess_persian_text_def text_of_item_def flood_early_def sample_item_def
      sample_env_def py_isspace_def)

lemma flood_late_text:
  "preprocess_persian_text (sample_env s) (text_of_item flood_late)
     = ascii ''flood warning north''"
  by (simp add: preprocess_persian_text_def text_of_item_def flood_late_def sample_item_def
      sample_env_def py_isspace_def)

lemma short_title_text:
  "preprocess_persian_text (sample_env s) (text_of_item short_title) = []"
  by (simp add: preprocess_persian_text_def text_of_item_def short_title_def sample_item_def
      sample_env_def py_isspace_def)

lemma grouped_first_cands:
  "candidate_texts (sample_env s) (recent_items_of (sample_env s) grouped_first flood_early)
     = [(ascii ''flood warning north'', 1)]"
  by (simp add: candidate_texts_def recent_items_of_def grouped_first_def flood_early_def
      flood_late_def sample_item_def sample_env_def preprocess_persian_text_def text_of_item_def
      py_isspace_def strip_def microseconds_per_day_def Let_def)

lemma two_items_cands:
  "candidate_texts (sample_env s) (recent_items_of (sample_env s) two_items flood_late)
     = [(ascii ''north flood warning'', 2)]"
  by (simp add: candidate_texts_def recent_items_of_def two_items_def flood_early_def
      flood_late_def sample_item_def sample_env_def preprocess_persian_text_def text_of_item_def
      py_isspace_def strip_def microseconds_per_day_def Let_def)

text \<open>
  C10. An item whose duplicate flag is already set: the task returns \<open>already_duplicate\<close>,
  the store is the one it was given (no group, no membership, no changed row) and no
  speed task is dispatched.
\<close>

theorem analyze_already_duplicate:
  assumes "get_news_item st i = Some n" and "is_duplicate n"
  shows "analyze_news_item e st i = (Already_duplicate, st, [])"
  using assms by (simp add: analyze_news_item_def)

theorem analyze_already_duplicate_witness:
  "get_news_item odd_items 4 = Some flagged \<and> is_duplicate flagged
   \<and> analyze_news_item (sample_env (4 / 5)) odd_items 4 = (Already_duplicate, odd_items, [])"
proof -
  have a: "get_news_item odd_items 4 = Some flagged"
    by (simp add: get_news_item_def odd_items_def short_title_def flagged_def sample_item_def)
  have b: "is_duplicate flagged" by (simp add: flagged_def sample_item_def)
  show ?thesis using a b analyze_already_duplicate [OF a b] by simp
qed

text \<open>
  C2, as the task behaves. An item that is not flagged and whose preprocessed text is
  empty or white space only: the task returns \<open>no_text\<close> and leaves the store as it was;
  it creates no group and no membership.
\<close>

theorem analyze_no_text:
  assumes "get_news_item st i = Some n" and "\<not> is_duplicate n"
    and "strip (preprocess_persian_text e (text_of_item n)) = []"
  shows "analyze_news_item e st i = (No_text, st, [])"
  using assms by (simp add: analyze_news_item_def)

theorem analyze_no_text_witness:
  "get_news_item odd_items 3 = Some short_title \<and> \<not> is_duplicate short_title
   \<and> strip (preprocess_persian_text (sample_env (4 / 5)) (text_of_item short_title)) = []
   \<and> analyze_news_item (sample_env (4 / 5)) odd_items 3 = (No_text, odd_items, [])"
proof -
  have a: "get_news_item odd_items 3 = Some short_title"
    by (simp add: get_news_item_def odd_items_def short_title_def flagged_def sample_item_def)
  have b: "\<not> is_duplicate short_title" by (simp add: short_title_def sample_item_def)
  have c: "strip (preprocess_persian_text (sample_env (4 / 5)) (text_of_item short_title)) = []"
    by (simp add: short_title_text strip_def)
  show ?thesis using a b c analyze_no_text [OF a b c] by simp
qed

text \<open>
  C2 as stated fails: the item with the title "up we go" has an empty preprocessed text,
  and the task answers \<open>no_text\<close>; afterwards the store holds no group and no membership.
\<close>

theorem analyze_empty_text_counterexample:
  "preprocess_persian_text (sample_env (4 / 5)) (text_of_item short_title) = []
   \<and> fst (analyze_news_item (sample_env (4 / 5)) odd_items 3) = No_text
   \<and> news_groups (fst (snd (analyze_news_item (sample_env (4 / 5)) odd_items 3))) = []
   \<and> news_group_items (fst (snd (analyze_news_item (sample_env (4 / 5)) odd_items 3))) = []"
proof -
  have a: "get_news_item odd_items 3 = Some short_title"
    by (simp add: get_news_item_def odd_items_def short_title_def flagged_def sample_item_def)
  have b: "\<not> is_duplicate short_title" by (simp add: short_title_def sample_item_def)
  have "analyze_news_item (sample_env (4 / 5)) odd_items 3 = (No_text, odd_items, [])"
    using a b by (simp add: analyze_news_item_def short_title_text strip_def)
  then show ?thesis by (simp add: short_title_text odd_items_def)
qed

text \<open>
  C8. The best candidate (the first index of the greatest score) reaches the grouping
  threshold but has no membership row. In a store whose membership rows name existing
  groups, the task creates a new group titled as the item with a founding membership of
  score 1.0 and returns \<open>new_group\<close> with the score; it does not fail.
\<close>

theorem analyze_match_without_group:
  assumes "get_news_item st i = Some n" and "\<not> is_duplicate n"
    and "strip (preprocess_persian_text e (text_of_item n)) \<noteq> []"
    and "cands = candidate_texts e (recent_items_of e st n)"
    and "tfidf_cosine e (preprocess_persian_text e (text_of_item n) # map fst cands) = Inr sims"
    and "k < length cands" and "k < length sims"
    and "\<forall>j < length sims. sims ! j \<le> sims ! k" and "\<forall>j < k. sims ! j < sims ! k"
    and "3 / 4 \<le> sims ! k"
    and "first_group_item_of st (snd (cands ! k)) = None"
    and "group_refs_ok st"
  shows "analyze_news_item e st i =
     (New_group (next_id (map ng_id (news_groups st))) (Some (sims ! k)),
      with_new_group e st n, [])"
proof -
  have ne: "candidate_texts e (recent_items_of e st n) \<noteq> []"
    using assms(4,6) by auto
  have mem: "n \<in> set (news_items st)" using get_news_item_Some [OF assms(1)] by simp
  have len: "Suc k < length (ni_id n # map snd cands)" using assms(6) by simp
  have idx: "(ni_id n # map snd cands) ! Suc k = snd (cands ! k)" using assms(6) by simp
  have thr: "similarity_threshold \<le> sims ! k"
    using assms(10) by (simp add: similarity_threshold_def)
  have "analyze_news_item e st i =
      match_and_group e st n (preprocess_persian_text e (text_of_item n) # map fst cands)
        (ni_id n # map snd cands)"
    using analyze_reaches_match [OF assms(1,2,3) ne] assms(4) by simp
  also have "\<dots> = new_group e st n (Some (sims ! k))"
    using match_and_group_best [OF assms(5,7,8,9) thr len, of st n] idx assms(11) by simp
  also have "\<dots> = (New_group (next_id (map ng_id (news_groups st))) (Some (sims ! k)),
      with_new_group e st n, [])"
    using create_group_for_ok [OF mem assms(12), of e] by (simp add: new_group_def)
  finally show ?thesis .
qed

theorem analyze_match_without_group_witness:
  "get_news_item two_items 1 = Some flood_late \<and> first_group_item_of two_items 2 = None
   \<and> analyze_news_item (sample_env (4 / 5)) two_items 1 =
       (New_group 1 (Some (4 / 5)), with_new_group (sample_env (4 / 5)) two_items flood_late, [])"
proof -
  let ?e = "sample_env (4 / 5)"
  let ?c = "[(ascii ''north flood warning'', 2 :: nat)]"
  have a: "get_news_item two_items 1 = Some flood_late"
    by (simp add: get_news_item_def two_items_def flood_late_def flood_early_def sample_item_def)
  have b: "\<not> is_duplicate flood_late" by (simp add: flood_late_def sample_item_def)
  have c: "strip (preprocess_persian_text ?e (text_of_item flood_late)) \<noteq> []"
    by (simp add: flood_late_text strip_def py_isspace_def)
  have d: "?c = candidate_texts ?e (recent_items_of ?e two_items flood_late)"
    by (simp add: two_items_cands)
  have f: "tfidf_cosine ?e (preprocess_persian_text ?e (text_of_item flood_late) # map fst ?c)
      = Inr [4 / 5]"
    by (simp add: sample_env_def)
  have g: "first_group_item_of two_items (snd (?c ! 0)) = None"
    by (simp add: first_group_item_of_def two_items_def)
  have h: "group_refs_ok two_items" by (simp add: group_refs_ok_def two_items_def)
  have "analyze_news_item ?e two_items 1 =
     (New_group (next_id (map ng_id (news_groups two_items))) (Some ([4 / 5] ! 0)),
      with_new_group ?e two_items flood_late, [])"
    using analyze_match_without_group [OF a b c d f _ _ _ _ _ g h] by simp
  then show ?thesis using a g by (simp add: two_items_def next_id_def)
qed

text \<open>
  C3. The best candidate (the first index of the greatest score) scores at least 0.75
  and has a membership row; its group exists and the item is not yet a member of it.
  Then the task returns \<open>added_to_group\<close>, the store gains exactly one membership row, of
  the item in the candidate's group with the computed score, and the item's duplicate
  flag is set exactly when the score is at least 0.9. Groups and analysis results are
  untouched, and the speed task is dispatched for the group.
\<close>

theorem analyze_attach_to_group:
  assumes "get_news_item st i = Some n" and "\<not> is_duplicate n"
    and "strip (preprocess_persian_text e (text_of_item n)) \<noteq> []"
    and "cands = candidate_texts e (recent_items_of e st n)"
    and "tfidf_cosine e (preprocess_persian_text e (text_of_item n) # map fst cands) = Inr sims"
    and "k < length cands" and "k < length sims"
    and "\<forall>j < length sims. sims ! j \<le> sims ! k" and "\<forall>j < k. sims ! j < sims ! k"
    and "3 / 4 \<le> sims ! k"
    and "first_group_item_of st (snd (cands ! k)) = Some m"
    and "news_group_id m \<in> set (map ng_id (news_groups st))"
    and "i \<notin> set (member_ids st (news_group_id m))"
  shows "\<exists>st'. analyze_news_item e st i =
           (Added_to_group (news_group_id m) (sims ! k) (9 / 10 \<le> sims ! k), st',
            [news_group_id m])
         \<and> news_group_items st' = news_group_items st @
             [\<lparr>gi_id = next_id (map gi_id (news_group_items st)),
               news_group_id = news_group_id m, news_item_id = i,
               similarity_score = sims ! k, added_at = utcnow e 1\<rparr>]
         \<and> get_news_item st' i = Some (n\<lparr>is_duplicate := (9 / 10 \<le> sims ! k)\<rparr>)
         \<and> news_groups st' = news_groups st
         \<and> analysis_results st' = analysis_results st"
proof -
  have ne: "candidate_texts e (recent_items_of e st n) \<noteq> []"
    using assms(4,6) by auto
  have id: "ni_id n = i" and mem: "n \<in> set (news_items st)"
    using get_news_item_Some [OF assms(1)] by simp_all
  have len: "Suc k < length (ni_id n # map snd cands)" using assms(6) by simp
  have idx: "(ni_id n # map snd cands) ! Suc k = snd (cands ! k)" using assms(6) by simp
  have thr: "similarity_threshold \<le> sims ! k"
    using assms(10) by (simp add: similarity_threshold_def)
  have nopair: "\<not> (\<exists>x \<in> set (news_group_items st).
      news_group_id x = news_group_id m \<and> news_item_id x = i)"
    using assms(13) by (auto simp: member_ids_def)
  have ins: "insert_group_item st (news_group_id m) i (sims ! k) (utcnow e 1) =
      Inr (st\<lparr>news_group_items := news_group_items st @
             [\<lparr>gi_id = next_id (map gi_id (news_group_items st)),
               news_group_id = news_group_id m, news_item_id = i,
               similarity_score = sims ! k, added_at = utcnow e 1\<rparr>]\<rparr>)"
    using assms(12) mem id nopair by (auto simp: insert_group_item_def)
  have "analyze_news_item e st i =
      match_and_group e st n (preprocess_persian_text e (text_of_item n) # map fst cands)
        (ni_id n # map snd cands)"
    using analyze_reaches_match [OF assms(1,2,3) ne] assms(4) by simp
  also have "\<dots> = add_to_group e st n m (sims ! k)"
    using match_and_group_best [OF assms(5,7,8,9) thr len, of st n] idx assms(11) by simp
  finally have run: "analyze_news_item e st i = add_to_group e st n m (sims ! k)" .
  show ?thesis
  proof (cases "9 / 10 \<le> sims ! k")
    case True
    have flag: "get_news_item
        (set_duplicate (st\<lparr>news_group_items := news_group_items st @
             [\<lparr>gi_id = next_id (map gi_id (news_group_items st)),
               news_group_id = news_group_id m, news_item_id = i,
               similarity_score = sims ! k, added_at = utcnow e 1\<rparr>]\<rparr>) i) i
        = Some (n\<lparr>is_duplicate := True\<rparr>)"
      using find_set_duplicate [of i "news_items st" n] assms(1)
      by (simp add: get_news_item_def set_duplicate_def)
    show ?thesis
      using run ins True flag id
      by (simp add: add_to_group_def duplicate_threshold_def Let_def set_duplicate_def)
  next
    case False
    have "n\<lparr>is_duplicate := False\<rparr> = n" using assms(2) by simp
    then show ?thesis
      using run ins False id assms(1)
      by (simp add: add_to_group_def duplicate_threshold_def Let_def get_news_item_def)
  qed
qed

theorem analyze_attach_to_group_witness:
  "(\<exists>st'. analyze_news_item (sample_env (4 / 5)) grouped_first 2 =
            (Added_to_group 1 (4 / 5) False, st', [1])
          \<and> member_ids st' 1 = [1, 2]
          \<and> get_news_item st' 2 = Some flood_early)
   \<and> (\<exists>st'. analyze_news_item (sample_env (19 / 20)) grouped_first 2 =
            (Added_to_group 1 (19 / 20) True, st', [1])
          \<and> member_ids st' 1 = [1, 2]
          \<and> get_news_item st' 2 = Some (flood_early\<lparr>is_duplicate := True\<rparr>))"
proof -
  have gen: "\<exists>st'. analyze_news_item (sample_env s) grouped_first 2 =
           (Added_to_group 1 s (9 / 10 \<le> s), st', [1])
         \<and> member_ids st' 1 = [1, 2]
         \<and> get_news_item st' 2 = Some (flood_early\<lparr>is_duplicate := (9 / 10 \<le> s)\<rparr>)"
    if "3 / 4 \<le> s" for s :: rat
  proof -
    let ?e = "sample_env s"
    let ?c = "[(ascii ''flood warning north'', 1 :: nat)]"
    let ?m = "\<lparr>gi_id = 1, news_group_id = 1, news_item_id = 1, similarity_score = 1,
               added_at = 1000\<rparr>"
    have a: "get_news_item grouped_first 2 = Some flood_early"
      by (simp add: get_news_item_def grouped_first_def flood_late_def flood_early_def
          sample_item_def)
    have b: "\<not> is_duplicate flood_early" by (simp add: flood_early_def sample_item_def)
    have c: "strip (preprocess_persian_text ?e (text_of_item flood_early)) \<noteq> []"
      by (simp add: flood_early_text strip_def py_isspace_def)
    have d: "?c = candidate_texts ?e (recent_items_of ?e grouped_first flood_early)"
      by (simp add: grouped_first_cands)
    have f: "tfidf_cosine ?e
        (preprocess_persian_text ?e (text_of_item flood_early) # map fst ?c) = Inr [s]"
      by (simp add: sample_env_def)
    have g: "first_group_item_of grouped_first (snd (?c ! 0)) = Some ?m"
      by (simp add: first_group_item_of_def grouped_first_def)
    have h: "news_group_id ?m \<in> set (map ng_id (news_groups grouped_first))"
      by (simp add: grouped_first_def)
    have i: "2 \<notin> set (member_ids grouped_first (news_group_id ?m))"
      by (simp add: member_ids_def grouped_first_def)
    have t: "3 / 4 \<le> [s] ! 0" using that by simp
    obtain st' where run: "analyze_news_item ?e grouped_first 2 =
             (Added_to_group 1 s (9 / 10 \<le> s), st', [1])"
      and items: "news_group_items st' = news_group_items grouped_first @
               [\<lparr>gi_id = next_id (map gi_id (news_group_items grouped_first)),
                 news_group_id = 1, news_item_id = 2,
                 similarity_score = s, added_at = utcnow ?e 1\<rparr>]"
      and flag: "get_news_item st' 2 = Some (flood_early\<lparr>is_duplicate := (9 / 10 \<le> s)\<rparr>)"
      using analyze_attach_to_group [OF a b c d f _ _ _ _ t g h i] by auto
    have "member_ids st' 1 = [1, 2]"
      using items by (simp add: member_ids_def grouped_first_def)
    then show ?thesis using run flag by blast
  qed
  have low: "flood_early\<lparr>is_duplicate := False\<rparr> = flood_early"
    by (simp add: flood_early_def sample_item_def)
  show ?thesis using gen [of "4 / 5"] gen [of "19 / 20"] low by simp
qed

section \<open>The date parser\<close>

lemma lookup_timedelta: "lookup_name ''timedelta'' = Inl NameError"
  by (simp add: lookup_name_def module_names_def builtin_names_def)

lemma try_relative_cases:
  "try_relative e ps s = Inr None \<or> (\<exists>err k. try_relative e ps s = Inl (err, k) \<and> k \<le> 1)"
  by (induction e ps s rule: try_relative.induct)
     (auto simp: lookup_timedelta Let_def split: option.splits sum.splits)

lemma try_relative_no_match:
  "\<forall>(w, u) \<in> set ps. re_search (decimal_value e) w pish s = None
   \<Longrightarrow> try_relative e ps s = Inr None"
  by (induction e ps s rule: try_relative.induct) auto

lemma parse_date_relative_is_now:
  assumes "s \<noteq> []" and "84 \<notin> set (strip s)" and "45 \<notin> set (strip s)"
  shows "parse_date e s = Some (now_utc e 0) \<or> parse_date e s = Some (now_utc e 1)"
proof -
  consider "try_relative e relative_patterns (strip s) = Inr None"
    | err k where "try_relative e relative_patterns (strip s) = Inl (err, k)" "k \<le> 1"
    using try_relative_cases [of e relative_patterns "strip s"] by blast
  then show ?thesis
  proof cases
    case 1
    then show ?thesis using assms by (simp add: parse_date_def parse_date_body_def)
  next
    case 2
    then have "k = 0 \<or> k = 1" by auto
    then show ?thesis using 2 assms by (auto simp: parse_date_def parse_date_body_def)
  qed
qed

text \<open>
  C1, at the input of the specification's scenario. The text is "2 hours ago" in Persian,
  the zone is UTC+3:30 and the clock stands at 2024-01-01T12:00:00+03:30. The parser
  matches the pattern and reads the clock, but the name \<open>timedelta\<close> is not bound in the
  module, so the subtraction raises NameError and the handler returns the clock's
  reading: 08:30:00Z, not 06:30:00Z.
\<close>

theorem parse_date_two_hours_ago:
  "parse_date tehran_env two_hours_ago = Some noon_in_tehran
   \<and> noon_in_tehran - 2 * microseconds_of ''hours'' = 1704090600000000
   \<and> parse_date tehran_env two_hours_ago \<noteq> Some 1704090600000000"
  by (simp add: parse_date_def parse_date_body_def two_hours_ago_def strip_def py_isspace_def
      saat_def pish_def daghighe_def rooz_def relative_patterns_def match_at_def literal_then_def
      tehran_env_def sample_digit_def py_int_def lookup_timedelta Let_def noon_in_tehran_def
      microseconds_of_def)

text \<open>
  C4, as the parser behaves. For every text that is not empty the parser returns an
  instant and raises nothing; for the empty text it returns None. When the text looks
  absolute and the date library rejects it, and when it is not absolute and no relative
  pattern matches, the returned instant is the clock's reading. No flag comes with it.
\<close>

theorem parse_date_total:
  "(s \<noteq> [] \<longrightarrow> (\<exists>t. parse_date e s = Some t))
   \<and> parse_date e [] = None
   \<and> (s \<noteq> [] \<and> (84 \<in> set (strip s) \<or> 45 \<in> set (strip s))
        \<and> dateutil_parse e (strip s) = Inl err
      \<longrightarrow> parse_date e s = Some (now_utc e 0))
   \<and> (s \<noteq> [] \<and> 84 \<notin> set (strip s) \<and> 45 \<notin> set (strip s)
        \<and> (\<forall>(w, u) \<in> set relative_patterns.
              re_search (decimal_value e) w pish (strip s) = None)
      \<longrightarrow> parse_date e s = Some (now_utc e 0))"
proof (intro conjI impI)
  assume "s \<noteq> []"
  then show "\<exists>t. parse_date e s = Some t"
    by (auto simp: parse_date_def split: sum.splits)
next
  show "parse_date e [] = None" by (simp add: parse_date_def)
next
  assume "s \<noteq> [] \<and> (84 \<in> set (strip s) \<or> 45 \<in> set (strip s))
    \<and> dateutil_parse e (strip s) = Inl err"
  then show "parse_date e s = Some (now_utc e 0)"
    by (auto simp: parse_date_def parse_date_body_def parse_absolute_def)
next
  assume a: "s \<noteq> [] \<and> 84 \<notin> set (strip s) \<and> 45 \<notin> set (strip s)
    \<and> (\<forall>(w, u) \<in> set relative_patterns. re_search (decimal_value e) w pish (strip s) = None)"
  then have "try_relative e relative_patterns (strip s) = Inr None"
    using try_relative_no_match [of relative_patterns e "strip s"] by blast
  then show "parse_date e s = Some (now_utc e 0)"
    using a by (simp add: parse_date_def parse_date_body_def)
qed

theorem parse_date_total_witness:
  "parse_date tehran_env iso_noon = Some noon_in_tehran
   \<and> parse_date tehran_env (ascii ''soon'') = Some (now_utc tehran_env 0)
   \<and> parse_date tehran_env (ascii ''01-01'') = Some (now_utc tehran_env 0)"
proof -
  have a: "ascii ''soon'' \<noteq> [] \<and> 84 \<notin> set (strip (ascii ''soon''))
      \<and> 45 \<notin> set (strip (ascii ''soon''))
      \<and> (\<forall>(w, u) \<in> set relative_patterns.
            re_search (decimal_value tehran_env) w pish (strip (ascii ''soon'')) = None)"
    by (simp add: strip_def py_isspace_def relative_patterns_def match_at_def tehran_env_def
        sample_digit_def)
  have b: "ascii ''01-01'' \<noteq> [] \<and> (84 \<in> set (strip (ascii ''01-01''))
        \<or> 45 \<in> set (strip (ascii ''01-01'')))
      \<and> dateutil_parse tehran_env (strip (ascii ''01-01'')) = Inl ParserError"
    by (simp add: strip_def py_isspace_def tehran_env_def iso_noon_def)
  have c: "parse_date tehran_env iso_noon = Some noon_in_tehran"
    by (simp add: parse_date_def parse_date_body_def parse_absolute_def strip_def py_isspace_def
        iso_noon_def tehran_env_def astimezone_utc_def in_range_def datetime_min_def
        datetime_max_def noon_in_tehran_def)
  show ?thesis
    using parse_date_total [of "ascii ''soon''" tehran_env ParserError]
      parse_date_total [of "ascii ''01-01''" tehran_env ParserError] a b c
    by blast
qed

text \<open>
  C4 as stated fails at the empty string: the parser returns None, not an instant.
\<close>

theorem parse_date_empty_counterexample: "parse_date tehran_env [] = None"
  by (simp add: parse_date_def)

section \<open>The position on the page\<close>

lemma first_index_None: "\<forall>x \<in> set xs. \<not> p x \<Longrightarrow> first_index p xs = None"
  by (induction xs) auto

lemma first_index_found:
  "first_index p xs = Some i \<Longrightarrow> i < length xs \<and> p (xs ! i)"
  by (induction xs arbitrary: i) (auto split: if_splits)

lemma find_all_smaller: "x \<in> set (find_all c) \<Longrightarrow> size x < size c"
proof (induction c arbitrary: x)
  case (Tag nm a cs)
  then obtain d where d: "d \<in> set cs"
    and x: "x \<in> set ((case d of Tag u v w \<Rightarrow> [d] | NavigableString s \<Rightarrow> []) @ find_all d)"
    by auto
  have "size x \<le> size d"
  proof (cases "x \<in> set (find_all d)")
    case True
    then show ?thesis using Tag.IH [OF d] by (simp add: less_imp_le)
  next
    case False
    then show ?thesis using x by (cases d) auto
  qed
  moreover have "size d < size (Tag nm a cs)"
    using d by (induction cs) auto
  ultimately show ?case by simp
next
  case (NavigableString s)
  then show ?case by simp
qed

lemma found_index_is_not_own:
  assumes "first_index (\<lambda>c. el \<in> set (find_all c)) all_news = Some i"
  shows "all_news ! i \<noteq> el"
proof
  assume "all_news ! i = el"
  then have "el \<in> set (find_all el)" using first_index_found [OF assms] by simp
  then show False using find_all_smaller [of el el] by simp
qed

lemma determine_position_not_below:
  \<comment> \<open>an element that lies below no selected tag has no position\<close>
  assumes "\<forall>c \<in> set all_news. el \<notin> set (find_all c)"
  shows "determine_position (Inr all_news) el = ''unknown''"
proof -
  have "first_index (\<lambda>c. el \<in> set (find_all c)) all_news = None"
    using assms by (rule first_index_None)
  then show ?thesis by (simp add: determine_position_def)
qed

lemma determine_position_side_by_side:
  \<comment> \<open>when no selected tag lies below a selected tag, no selected tag has a position\<close>
  assumes "\<forall>c \<in> set all_news. \<forall>d \<in> set all_news. d \<notin> set (find_all c)"
    and "el \<in> set all_news"
  shows "determine_position (Inr all_news) el = ''unknown''"
  using assms by (intro determine_position_not_below) blast

text \<open>
  C7. The scraper passes each selected tag itself to the routine. On a listing of four
  entries side by side the routine answers \<open>unknown\<close> for every entry, the first
  included, where the rule of the index gives the top position to the entries at
  indices 0 to 2: line 136 looks for the element among the tags below each selected
  tag, and an entry does not lie below itself.
\<close>

theorem determine_position_flat_listing:
  "flat_listing ! 0 = news_entry 0 \<and> length flat_listing = 4
   \<and> determine_position (Inr flat_listing) (flat_listing ! 0) = ''unknown''
   \<and> map (determine_position (Inr flat_listing)) flat_listing
       = [''unknown'', ''unknown'', ''unknown'', ''unknown'']"
  by (simp add: flat_listing_def news_entry_def determine_position_def)

text \<open>
  An element is found only below another selected tag, and then under that tag's index:
  of eleven selected tags the one at index 6, wrapped by the tag at index 5, gets
  \<open>homepage_bottom\<close>, by the test \<open>5 < 11 div 2\<close> of line 144.
\<close>

lemma determine_position_nested_listing:
  "nested_listing ! 6 = leaf 6 \<and> length nested_listing = 11
   \<and> determine_position (Inr nested_listing) (leaf 6) = ''homepage_bottom''"
  by (simp add: nested_listing_def leaf_def determine_position_def position_of_index_def)

section \<open>Saving scraped items\<close>

lemma find_by_url_Some:
  "u \<in> set (map url (news_items st)) \<Longrightarrow> \<exists>x. find_by_url st (Some u) = Some x"
  by (cases "find (\<lambda>n. url n = u) (news_items st)")
     (auto simp: find_by_url_def find_None_iff)

lemma save_item_existing:
  assumes "s_url item_data = Some u" and "u \<in> set (map url (news_items st))"
  shows "save_item e a k item_data (st, c, jobs) =
     (st, c\<lparr>duplicate_count := duplicate_count c + 1\<rparr>, jobs)"
proof -
  obtain x where "find_by_url st (s_url item_data) = Some x"
    using find_by_url_Some [OF assms(2)] assms(1) by auto
  then show ?thesis by (simp add: save_item_def)
qed

lemma save_item_appends:
  "\<exists>new. news_items (fst (save_item e a k item_data (st, c, jobs))) = news_items st @ new
     \<and> distinct (map url new) \<and> set (map url new) \<inter> set (map url (news_items st)) = {}"
  by (auto simp: save_item_def insert_news_item_def Let_def
      split: option.splits sum.splits if_splits)

lemma save_items_appends:
  "\<exists>new. news_items (fst (save_items e a k items acc)) = news_items (fst acc) @ new
     \<and> distinct (map url new) \<and> set (map url new) \<inter> set (map url (news_items (fst acc))) = {}"
proof (induction items arbitrary: k acc)
  case Nil
  then show ?case by simp
next
  case (Cons item_data rest)
  obtain st c jobs where acc: "acc = (st, c, jobs)" by (cases acc) auto
  let ?acc1 = "save_item e a k item_data (st, c, jobs)"
  obtain new1 where n1: "news_items (fst ?acc1) = news_items st @ new1"
    "distinct (map url new1)" "set (map url new1) \<inter> set (map url (news_items st)) = {}"
    using save_item_appends [of e a k item_data st c jobs] by blast
  obtain new2 where n2: "news_items (fst (save_items e a (Suc k) rest ?acc1))
      = news_items (fst ?acc1) @ new2"
    "distinct (map url new2)"
    "set (map url new2) \<inter> set (map url (news_items (fst ?acc1))) = {}"
    using Cons.IH [of "Suc k" ?acc1] by blast
  have "news_items (fst (save_items e a k (item_data # rest) acc))
      = news_items (fst acc) @ (new1 @ new2)"
    using n1(1) n2(1) acc by simp
  moreover have "distinct (map url (new1 @ new2))"
    using n1(2) n2(2,3) n1(1) by auto
  moreover have "set (map url (new1 @ new2)) \<inter> set (map url (news_items (fst acc))) = {}"
    using n1(3) n2(3) n1(1) acc by auto
  ultimately show ?case by blast
qed

text \<open>
  C9. A scraped item whose URL is in the store when its turn comes is skipped: the
  store stays as it is, the duplicate counter goes up by one, the error counter does
  not move and no analysis is dispatched. A whole pass only appends items, with URLs
  that differ from each other and from every URL the store had; so if the URLs of the
  store are pairwise different before the pass, they are after it.
\<close>

theorem crawl_keeps_urls_unique:
  "(s_url item_data = Some u \<and> u \<in> set (map url (news_items st))
      \<longrightarrow> save_item e a k item_data (st, c, jobs) =
            (st, c\<lparr>duplicate_count := duplicate_count c + 1\<rparr>, jobs))
   \<and> (\<exists>new. news_items (fst (crawl_agency_items e a items st)) = news_items st @ new
         \<and> distinct (map url new)
         \<and> set (map url new) \<inter> set (map url (news_items st)) = {})
   \<and> (distinct (map url (news_items st))
      \<longrightarrow> distinct (map url (news_items (fst (crawl_agency_items e a items st)))))"
proof (intro conjI impI)
  assume "s_url item_data = Some u \<and> u \<in> set (map url (news_items st))"
  then show "save_item e a k item_data (st, c, jobs) =
      (st, c\<lparr>duplicate_count := duplicate_count c + 1\<rparr>, jobs)"
    using save_item_existing by blast
next
  show ex: "\<exists>new. news_items (fst (crawl_agency_items e a items st)) = news_items st @ new
      \<and> distinct (map url new) \<and> set (map url new) \<inter> set (map url (news_items st)) = {}"
    using save_items_appends [of e a 0 items
        "(st, \<lparr>saved_count = 0, duplicate_count = 0, error_count = 0\<rparr>, [])"]
    by (simp add: crawl_agency_items_def)
  assume "distinct (map url (news_items st))"
  moreover obtain new
    where "news_items (fst (crawl_agency_items e a items st)) = news_items st @ new"
      and "distinct (map url new)"
      and "set (map url new) \<inter> set (map url (news_items st)) = {}"
    using ex by blast
  ultimately show "distinct (map url (news_items (fst (crawl_agency_items e a items st))))"
    by (simp add: Int_commute)
qed

theorem crawl_keeps_urls_unique_witness:
  "save_item (sample_env 0) 1 0 (scraped_pass ! 0)
       (two_items, \<lparr>saved_count = 0, duplicate_count = 0, error_count = 0\<rparr>, [])
     = (two_items, \<lparr>saved_count = 0, duplicate_count = 1, error_count = 0\<rparr>, [])
   \<and> distinct (map url (news_items (fst (crawl_agency_items (sample_env 0) 1 scraped_pass
         two_items))))
   \<and> fst (snd (crawl_agency_items (sample_env 0) 1 scraped_pass two_items))
     = \<lparr>saved_count = 1, duplicate_count = 3, error_count = 0\<rparr>"
proof -
  have a: "s_url (scraped_pass ! 0) = Some (ascii ''http://a/1'')
      \<and> ascii ''http://a/1'' \<in> set (map url (news_items two_items))"
    by (simp add: scraped_pass_def scraped_def two_items_def flood_late_def flood_early_def
        sample_item_def)
  have b: "distinct (map url (news_items two_items))"
    by (simp add: two_items_def flood_late_def flood_early_def sample_item_def)
  have c: "fst (snd (crawl_agency_items (sample_env 0) 1 scraped_pass two_items))
     = \<lparr>saved_count = 1, duplicate_count = 3, error_count = 0\<rparr>"
    by (simp add: crawl_agency_items_def scraped_pass_def scraped_def two_items_def
        flood_late_def flood_early_def sample_item_def save_item_def find_by_url_def
        insert_news_item_def next_id_def sample_env_def Let_def)
  show ?thesis
    using crawl_keeps_urls_unique [of "scraped_pass ! 0" "ascii ''http://a/1''" two_items
        "sample_env 0" 1 0 "\<lparr>saved_count = 0, duplicate_count = 0, error_count = 0\<rparr>" "[]"
        scraped_pass] a b c
    by simp
qed

section \<open>The publication speed task\<close>

subsection \<open>The quotient in minutes\<close>

lemma pow2_powi: "pow2 e = 2 powi e"
  by (simp add: pow2_def power_int_def inverse_eq_divide power_one_over)

lemma pow2_pos: "0 < pow2 e"
  by (simp add: pow2_def)

lemma floor_log2_bounds:
  assumes "0 < x"
  shows "pow2 (floor_log2 x) \<le> x \<and> x < pow2 (floor_log2 x + 1)"
proof -
  obtain a b where q: "quotient_of x = (a, b)" by (cases "quotient_of x") auto
  have b: "0 < b" using quotient_of_denom_pos [OF q] .
  have x: "x = of_int a / of_int b" using quotient_of_div [OF q] .
  have a: "0 < a" using assms b x by (simp add: zero_less_divide_iff)
  define k where "k = bitlen a - bitlen b"
  have la: "1 \<le> bitlen a" and lb: "1 \<le> bitlen b"
    using a b by (simp_all add: bitlen_alt_def)
  have a1: "(2 :: rat) powi (bitlen a - 1) \<le> of_int a" and a2: "of_int a < (2 :: rat) powi bitlen a"
  proof -
    have "2 ^ nat (bitlen a - 1) \<le> a \<and> a < 2 ^ nat (bitlen a)" using bitlen_bounds [OF a] .
    then have "(of_int (2 ^ nat (bitlen a - 1)) :: rat) \<le> of_int a"
      and "(of_int a :: rat) < of_int (2 ^ nat (bitlen a))"
      by (simp_all only: of_int_le_iff of_int_less_iff)
    then show "(2 :: rat) powi (bitlen a - 1) \<le> of_int a" "of_int a < (2 :: rat) powi bitlen a"
      using la by (simp_all add: power_int_def)
  qed
  have b1: "(2 :: rat) powi (bitlen b - 1) \<le> of_int b" and b2: "of_int b < (2 :: rat) powi bitlen b"
  proof -
    have "2 ^ nat (bitlen b - 1) \<le> b \<and> b < 2 ^ nat (bitlen b)" using bitlen_bounds [OF b] .
    then have "(of_int (2 ^ nat (bitlen b - 1)) :: rat) \<le> of_int b"
      and "(of_int b :: rat) < of_int (2 ^ nat (bitlen b))"
      by (simp_all only: of_int_le_iff of_int_less_iff)
    then show "(2 :: rat) powi (bitlen b - 1) \<le> of_int b" "of_int b < (2 :: rat) powi bitlen b"
      using lb by (simp_all add: power_int_def)
  qed
  have bpos: "(0 :: rat) < of_int b" using b by simp
  have p1: "(0 :: rat) < 2 powi (bitlen b - 1)" and p2: "(0 :: rat) < 2 powi bitlen b"
    by simp_all
  have up: "x < pow2 (k + 1)"
  proof -
    have "x < 2 powi bitlen a / of_int b"
      unfolding x using a2 bpos by (simp add: divide_strict_right_mono)
    also have "\<dots> \<le> 2 powi bitlen a / 2 powi (bitlen b - 1)"
      using b1 p1 by (simp add: frac_le)
    also have "\<dots> = 2 powi (bitlen a - (bitlen b - 1))"
      by (simp add: power_int_diff)
    finally show ?thesis by (simp add: pow2_powi k_def algebra_simps)
  qed
  have low: "pow2 (k - 1) \<le> x"
  proof -
    have "(2 :: rat) powi (bitlen a - 1 - bitlen b) = 2 powi (bitlen a - 1) / 2 powi bitlen b"
      by (simp add: power_int_diff)
    also have "\<dots> \<le> of_int a / 2 powi bitlen b"
      using a1 p2 by (simp add: divide_right_mono)
    also have "\<dots> \<le> of_int a / of_int b"
      using b2 bpos a by (simp add: frac_le)
    finally show ?thesis by (simp add: pow2_powi k_def x algebra_simps)
  qed
  show ?thesis
  proof (cases "pow2 k \<le> x")
    case True
    then have "floor_log2 x = k" by (simp add: floor_log2_def q k_def Let_def)
    then show ?thesis using True up by simp
  next
    case False
    then have "floor_log2 x = k - 1" by (simp add: floor_log2_def q k_def Let_def)
    then show ?thesis using False low by simp
  qed
qed

lemma round_half_even_near: "\<bar>of_int (round_half_even x) - x\<bar> \<le> 1 / 2"
proof -
  have "of_int \<lfloor>x\<rfloor> \<le> x" "x < of_int \<lfloor>x\<rfloor> + 1" by linarith+
  then show ?thesis by (auto simp: round_half_even_def Let_def abs_le_iff)
qed

text \<open>
  The rounding is to 53 significant bits: the scaled number has 53 bits before the
  point, the result is a multiple of the unit \<open>pow2 e\<close> of that scale, and it is at most
  half a unit away.
\<close>

lemma nearest_double_near:
  assumes "x \<noteq> 0"
  defines "e \<equiv> floor_log2 \<bar>x\<bar> - 52"
  shows "2 ^ 52 \<le> \<bar>x\<bar> / pow2 e \<and> \<bar>x\<bar> / pow2 e < 2 ^ 53
    \<and> nearest_double x = of_int (round_half_even (x / pow2 e)) * pow2 e
    \<and> \<bar>nearest_double x - x\<bar> \<le> pow2 e / 2"
proof -
  have pos: "0 < \<bar>x\<bar>" using assms(1) by simp
  have bd: "pow2 (e + 52) \<le> \<bar>x\<bar> \<and> \<bar>x\<bar> < pow2 (e + 52 + 1)"
    using floor_log2_bounds [OF pos] by (simp add: e_def)
  have s1: "pow2 (e + 52) = pow2 e * 2 ^ 52" and s2: "pow2 (e + 52 + 1) = pow2 e * 2 ^ 53"
    by (simp_all add: pow2_powi power_int_add)
  have pe: "0 < pow2 e" by (rule pow2_pos)
  have r1: "2 ^ 52 \<le> \<bar>x\<bar> / pow2 e"
    using bd pe unfolding s1 by (simp add: pos_le_divide_eq mult.commute)
  have r2: "\<bar>x\<bar> / pow2 e < 2 ^ 53"
    using bd pe unfolding s2 by (simp add: pos_divide_less_eq mult.commute)
  have eq: "nearest_double x = of_int (round_half_even (x / pow2 e)) * pow2 e"
    using assms(1) by (simp add: nearest_double_def Let_def e_def)
  have "\<bar>of_int (round_half_even (x / pow2 e)) - x / pow2 e\<bar> \<le> 1 / 2"
    by (rule round_half_even_near)
  then have "\<bar>of_int (round_half_even (x / pow2 e)) - x / pow2 e\<bar> * pow2 e \<le> 1 / 2 * pow2 e"
    using pe by (simp add: mult_right_mono)
  moreover have "\<bar>of_int (round_half_even (x / pow2 e)) - x / pow2 e\<bar> * pow2 e
      = \<bar>of_int (round_half_even (x / pow2 e)) * pow2 e - x\<bar>"
  proof -
    have "\<bar>of_int (round_half_even (x / pow2 e)) - x / pow2 e\<bar> * pow2 e
        = \<bar>(of_int (round_half_even (x / pow2 e)) - x / pow2 e) * pow2 e\<bar>"
      using pe by (simp add: abs_mult)
    also have "(of_int (round_half_even (x / pow2 e)) - x / pow2 e) * pow2 e
        = of_int (round_half_even (x / pow2 e)) * pow2 e - x"
      using pe by (simp add: left_diff_distrib)
    finally show ?thesis .
  qed
  ultimately have "\<bar>nearest_double x - x\<bar> \<le> pow2 e / 2" unfolding eq by simp
  then show ?thesis using r1 r2 eq by simp
qed

lemma round_half_even_of_int: "round_half_even (of_int n) = n"
  by (simp add: round_half_even_def)

lemma floor_log2_of_int:
  assumes "0 < n" "n < 2 ^ 53"
  shows "floor_log2 (of_int n) \<le> 52"
proof -
  have "bitlen n \<le> 53"
    using assms(2) bitlen_le_iff_power [of n 53] by simp
  moreover have "bitlen 1 = 1" by (simp add: bitlen_alt_def)
  ultimately show ?thesis
    by (simp add: floor_log2_def quotient_of_int Let_def)
qed

lemma nearest_double_of_int:
  \<comment> \<open>an integer below \<open>2 ^ 53\<close> is a double\<close>
  assumes "0 \<le> n" "n < 2 ^ 53"
  shows "nearest_double (of_int n) = of_int n"
proof (cases "n = 0")
  case True
  then show ?thesis by (simp add: nearest_double_def)
next
  case False
  then have pos: "0 < n" using assms(1) by simp
  define e where "e = floor_log2 (of_int n) - 52"
  have le: "e \<le> 0" using floor_log2_of_int [OF pos assms(2)] by (simp add: e_def)
  define k where "k = nat (- e)"
  have p: "pow2 e = 1 / 2 ^ k"
  proof (cases "e = 0")
    case True
    then show ?thesis by (simp add: pow2_def k_def)
  next
    case False
    then show ?thesis using le by (simp add: pow2_def k_def)
  qed
  have q: "of_int n / pow2 e = (of_int (n * 2 ^ k) :: rat)"
    by (simp add: p)
  have "nearest_double (of_int n) = of_int (round_half_even (of_int n / pow2 e)) * pow2 e"
    using pos by (simp add: nearest_double_def Let_def e_def)
  also have "\<dots> = of_int (n * 2 ^ k) * pow2 e"
    unfolding q round_half_even_of_int by (rule refl)
  also have "\<dots> = of_int n" by (simp add: p)
  finally show ?thesis .
qed

lemma minutes_between_whole:
  \<comment> \<open>a whole number of minutes comes out exactly\<close>
  assumes "t = first_time + 60000000 * int k" "60 * k < 2 ^ 53"
  shows "minutes_between first_time t = of_nat k"
proof -
  have a: "(of_int (t - first_time) / 1000000 :: rat) = of_int (60 * int k)"
    using assms(1) by simp
  have b: "60 * int k < 2 ^ 53"
    using assms(2)
    by (metis of_nat_less_numeral_power_cancel_iff of_nat_mult of_nat_numeral)
  have c: "total_seconds (t - first_time) = of_int (60 * int k)"
    unfolding total_seconds_def a using nearest_double_of_int [of "60 * int k"] b by simp
  have d: "(of_int (60 * int k) / 60 :: rat) = of_int (int k)" by simp
  have "int k < 2 ^ 53" using b by simp
  then show ?thesis
    unfolding minutes_between_def c d using nearest_double_of_int [of "int k"] by simp
qed


text \<open>
  Other differences are rounded, once by each division. After one second the quotient
  is the double nearest to \<open>1 / 60\<close>; after 3003 microseconds it is not the double nearest
  to the exact number of minutes.
\<close>

lemma minutes_between_one_second:
  "minutes_between 0 1000000 = 4803839602528529 / 2 ^ 58
   \<and> minutes_between 0 1000000 \<noteq> 1 / 60"
  by code_simp

lemma minutes_between_rounds_twice:
  "minutes_between 0 3003 \<noteq> nearest_double (3003 / 60000000)"
  by code_simp

subsection \<open>The task\<close>

lemma speed_result_of_None: "speed_result_of st i = None \<longleftrightarrow> speed_results_for st i = []"
  by (auto simp: speed_result_of_def speed_results_for_def speed_results_def find_None_iff
      filter_empty_conv)

lemma speed_results_for_add:
  "speed_results_for (add_speed_result e st j d k) i =
     speed_results_for st i @
       (if i = j
        then [\<lparr>ar_id = next_id (map ar_id (analysis_results st)), ar_news_item_id = j,
               analysis_type = speed_to_publish, ar_value = Minutes d,
               analysis_timestamp = utcnow e k\<rparr>]
        else [])"
  by (simp add: speed_results_for_def speed_results_def add_speed_result_def)

lemma speed_loop_frame:
  "news_items (fst (speed_loop e t0 rows acc)) = news_items (fst acc)
   \<and> news_groups (fst (speed_loop e t0 rows acc)) = news_groups (fst acc)
   \<and> news_group_items (fst (speed_loop e t0 rows acc)) = news_group_items (fst acc)"
  by (induction e t0 rows acc rule: speed_loop.induct)
     (auto simp: Let_def add_speed_result_def split: option.splits)

lemma speed_loop_values:
  "map ar_value (speed_results_for (fst (speed_loop e t0 rows (st, k))) i) =
     (if speed_results_for st i \<noteq> [] then map ar_value (speed_results_for st i)
      else (case find (\<lambda>(t, n, m). ni_id n = i) rows of
              None \<Rightarrow> []
            | Some (t, n, m) \<Rightarrow> [Minutes (minutes_between t0 t)]))"
proof (induction rows arbitrary: st k)
  case Nil
  then show ?case by simp
next
  case (Cons row rows)
  obtain t n m where row: "row = (t, n, m)" by (cases row) auto
  show ?case
  proof (cases "speed_result_of st (ni_id n)")
    case None
    then have empty: "speed_results_for st (ni_id n) = []"
      by (simp add: speed_result_of_None)
    show ?thesis
      using None empty row Cons.IH [of "add_speed_result e st (ni_id n) (minutes_between t0 t) k" "Suc k"]
      by (simp add: Let_def speed_results_for_add)
  next
    case (Some r)
    then have "speed_results_for st (ni_id n) \<noteq> []"
      using speed_result_of_None [of st "ni_id n"] by simp
    then show ?thesis using Some row Cons.IH [of st k] by (auto simp: Let_def)
  qed
qed

lemma speed_loop_kept:
  "speed_results_for st i \<noteq> [] \<Longrightarrow>
   speed_results_for (fst (speed_loop e t0 rows (st, k))) i = speed_results_for st i"
proof (induction rows arbitrary: st k)
  case Nil
  then show ?case by simp
next
  case (Cons row rows)
  obtain t n m where row: "row = (t, n, m)" by (cases row) auto
  show ?case
  proof (cases "speed_result_of st (ni_id n)")
    case None
    then have "speed_results_for st (ni_id n) = []" by (simp add: speed_result_of_None)
    then have ne: "i \<noteq> ni_id n" using Cons.prems by auto
    let ?st1 = "add_speed_result e st (ni_id n) (minutes_between t0 t) k"
    have same: "speed_results_for ?st1 i = speed_results_for st i"
      using ne by (simp add: speed_results_for_add)
    then have "speed_results_for (fst (speed_loop e t0 rows (?st1, Suc k))) i
        = speed_results_for ?st1 i"
      using Cons.IH [of ?st1 "Suc k"] Cons.prems by simp
    then show ?thesis using None row same by (simp add: Let_def)
  next
    case (Some r)
    then show ?thesis using row Cons.IH [of st k] Cons.prems by (simp add: Let_def)
  qed
qed

lemma timestamped_members_set:
  "(t, n, m) \<in> set (timestamped_members st g) \<longleftrightarrow>
     n \<in> set (news_items st) \<and> publication_timestamp n = Some t
     \<and> m \<in> set (news_group_items st) \<and> news_item_id m = ni_id n \<and> news_group_id m = g"
proof
  assume "(t, n, m) \<in> set (timestamped_members st g)"
  then show "n \<in> set (news_items st) \<and> publication_timestamp n = Some t
     \<and> m \<in> set (news_group_items st) \<and> news_item_id m = ni_id n \<and> news_group_id m = g"
    by (auto simp: timestamped_members_def rows_of_def split: option.splits)
next
  assume a: "n \<in> set (news_items st) \<and> publication_timestamp n = Some t
     \<and> m \<in> set (news_group_items st) \<and> news_item_id m = ni_id n \<and> news_group_id m = g"
  have "(t, n, m) \<in> set (rows_of (news_group_items st) g n)"
    using a by (simp add: rows_of_def)
  then show "(t, n, m) \<in> set (timestamped_members st g)"
    using a unfolding timestamped_members_def set_sort set_concat set_map by blast
qed

lemma timestamped_members_sorted: "sorted (map fst (timestamped_members st g))"
  by (simp add: timestamped_members_def)

lemma same_id_same_item:
  "distinct (map ni_id xs) \<Longrightarrow> n \<in> set xs \<Longrightarrow> n' \<in> set xs \<Longrightarrow> ni_id n = ni_id n' \<Longrightarrow> n = n'"
  by (meson distinct_map inj_onD)

lemma speed_loop_untouched:
  "i \<notin> row_id ` set rows \<Longrightarrow>
   speed_results_for (fst (speed_loop e t0 rows (st, k))) i = speed_results_for st i"
proof (induction rows arbitrary: st k)
  case Nil
  then show ?case by simp
next
  case (Cons row rows)
  obtain t n m where row: "row = (t, n, m)" by (cases row) auto
  have ne: "i \<noteq> ni_id n" and rest: "i \<notin> row_id ` set rows"
    using Cons.prems row by (auto simp: row_id_def)
  show ?case
  proof (cases "speed_result_of st (ni_id n)")
    case None
    let ?st1 = "add_speed_result e st (ni_id n) (minutes_between t0 t) k"
    have "speed_results_for (fst (speed_loop e t0 rows (?st1, Suc k))) i
        = speed_results_for ?st1 i"
      using Cons.IH [OF rest] .
    then show ?thesis using None row ne by (simp add: Let_def speed_results_for_add)
  next
    case (Some r)
    then show ?thesis using row Cons.IH [OF rest, of st k] by (simp add: Let_def)
  qed
qed

lemma calculate_success:
  assumes "get_news_group st g = Some grp"
    and "timestamped_members st g = (t0, n0, m0) # rest" and "rest \<noteq> []"
  shows "calculate_publication_speed e st g =
     (Success g (snd (speed_loop e t0 rest (st, 0))), fst (speed_loop e t0 rest (st, 0)))"
proof -
  have "\<not> length (timestamped_members st g) < 2"
    using assms(2,3) by (cases rest) auto
  then show ?thesis
    using assms(1,2)
    by (simp add: calculate_publication_speed_def Let_def split: prod.splits)
qed

lemma find_Some_in: "find p xs = Some x \<Longrightarrow> x \<in> set xs \<and> p x"
  by (induction xs) (auto split: if_splits)

lemma find_row:
  assumes "(t, n, m) \<in> set rows"
  shows "\<exists>t' n' m'. find (\<lambda>(t, n', m). ni_id n' = ni_id n) rows = Some (t', n', m')
     \<and> (t', n', m') \<in> set rows \<and> ni_id n' = ni_id n"
proof -
  have "find (\<lambda>(t, n', m). ni_id n' = ni_id n) rows \<noteq> None"
    using assms by (auto simp: find_None_iff)
  then obtain x where x: "find (\<lambda>(t, n', m). ni_id n' = ni_id n) rows = Some x" by auto
  obtain t' n' m' where c: "x = (t', n', m')" by (cases x) auto
  have "x \<in> set rows \<and> (case x of (t, n', m) \<Rightarrow> ni_id n' = ni_id n)"
    using find_Some_in [OF x] .
  then show ?thesis using x c by auto
qed

text \<open>
  C5, as the task behaves. For an existing group: with fewer than two timestamped
  members the task returns \<open>insufficient_items\<close> and leaves the store as it was. With at
  least two, and item ids a key, it returns \<open>success\<close>; the first row of the query holds
  the earliest publish time; every later row's item that had no speed result has
  exactly one afterwards, the float \<open>total_seconds() / 60\<close> of the time from the earliest
  publish time to its own, which is the number \<open>k\<close> itself when that time is \<open>k\<close> whole
  minutes (for every \<open>k\<close> that a difference of datetimes reaches); an item that had a
  speed result keeps what it had; items and memberships are untouched. The first row's
  item is outside the loop: when its id is on no later row (memberships are unique),
  its speed results stay as they were.
\<close>

theorem speed_for_later_members:
  assumes "get_news_group st g = Some grp"
  shows "(length (timestamped_members st g) < 2
            \<longrightarrow> calculate_publication_speed e st g = (Insufficient_items, st))
         \<and> (distinct (map ni_id (news_items st))
             \<and> timestamped_members st g = (t0, n0, m0) # rest \<and> rest \<noteq> []
            \<longrightarrow> (\<exists>k. fst (calculate_publication_speed e st g) = Success g k)
               \<and> (\<forall>(t, n, m) \<in> set rest. t0 \<le> t)
               \<and> (\<forall>(t, n, m) \<in> set rest. speed_result_of st (ni_id n) = None \<longrightarrow>
                     map ar_value
                       (speed_results_for (snd (calculate_publication_speed e st g)) (ni_id n))
                     = [Minutes (minutes_between t0 t)])
               \<and> (\<forall>(t, n, m) \<in> set rest.
                     speed_result_of st (ni_id n) = None
                     \<and> t = t0 + 60000000 * int k \<and> 60 * k < 2 ^ 53 \<longrightarrow>
                     map ar_value
                       (speed_results_for (snd (calculate_publication_speed e st g)) (ni_id n))
                     = [Minutes (of_nat k)])
               \<and> (\<forall>(t, n, m) \<in> set rest. speed_result_of st (ni_id n) \<noteq> None \<longrightarrow>
                     speed_results_for (snd (calculate_publication_speed e st g)) (ni_id n)
                     = speed_results_for st (ni_id n))
               \<and> (ni_id n0 \<notin> row_id ` set rest \<longrightarrow>
                     speed_results_for (snd (calculate_publication_speed e st g)) (ni_id n0)
                     = speed_results_for st (ni_id n0))
               \<and> news_items (snd (calculate_publication_speed e st g)) = news_items st
               \<and> news_group_items (snd (calculate_publication_speed e st g))
                   = news_group_items st)"
proof (intro conjI impI)
  assume "length (timestamped_members st g) < 2"
  then show "calculate_publication_speed e st g = (Insufficient_items, st)"
    using assms by (simp add: calculate_publication_speed_def)
next
  assume a: "distinct (map ni_id (news_items st))
    \<and> timestamped_members st g = (t0, n0, m0) # rest \<and> rest \<noteq> []"
  then have keys: "distinct (map ni_id (news_items st))"
    and mem: "timestamped_members st g = (t0, n0, m0) # rest" and ne: "rest \<noteq> []"
    by simp_all
  let ?st' = "fst (speed_loop e t0 rest (st, 0))"
  have run: "calculate_publication_speed e st g =
      (Success g (snd (speed_loop e t0 rest (st, 0))), ?st')"
    using calculate_success [OF assms mem ne] .
  show "\<exists>k. fst (calculate_publication_speed e st g) = Success g k"
    using run by simp
  show "\<forall>(t, n, m) \<in> set rest. t0 \<le> t"
    using timestamped_members_sorted [of st g] mem by auto
  have vals: "\<forall>(t, n, m) \<in> set rest. speed_result_of st (ni_id n) = None \<longrightarrow>
      map ar_value (speed_results_for (snd (calculate_publication_speed e st g)) (ni_id n))
        = [Minutes (minutes_between t0 t)]"
  proof (intro ballI, clarify)
    fix t n m
    assume row: "(t, n, m) \<in> set rest" and none: "speed_result_of st (ni_id n) = None"
    obtain t' n' m' where f: "find (\<lambda>(t, n', m). ni_id n' = ni_id n) rest = Some (t', n', m')"
      and row': "(t', n', m') \<in> set rest" and id: "ni_id n' = ni_id n"
      using find_row [OF row] by blast
    have r1: "n \<in> set (news_items st) \<and> publication_timestamp n = Some t"
      using row mem timestamped_members_set [of t n m st g] by simp
    have r2: "n' \<in> set (news_items st) \<and> publication_timestamp n' = Some t'"
      using row' mem timestamped_members_set [of t' n' m' st g] by simp
    have "n' = n" using same_id_same_item [OF keys] r1 r2 id by blast
    then have "t' = t" using r1 r2 by simp
    then show "map ar_value
        (speed_results_for (snd (calculate_publication_speed e st g)) (ni_id n))
        = [Minutes (minutes_between t0 t)]"
      using run f none speed_loop_values [of e t0 rest st 0 "ni_id n"]
      by (simp add: speed_result_of_None)
  qed
  show "\<forall>(t, n, m) \<in> set rest. speed_result_of st (ni_id n) = None \<longrightarrow>
      map ar_value (speed_results_for (snd (calculate_publication_speed e st g)) (ni_id n))
        = [Minutes (minutes_between t0 t)]"
    using vals .
  show "\<forall>(t, n, m) \<in> set rest.
      speed_result_of st (ni_id n) = None
      \<and> t = t0 + 60000000 * int k \<and> 60 * k < 2 ^ 53 \<longrightarrow>
      map ar_value (speed_results_for (snd (calculate_publication_speed e st g)) (ni_id n))
        = [Minutes (of_nat k)]"
  proof (intro ballI, clarify)
    fix t n m
    assume row: "(t0 + 60000000 * int k, n, m) \<in> set rest"
      and none: "speed_result_of st (ni_id n) = None" and small: "60 * k < 2 ^ 53"
    have "map ar_value
        (speed_results_for (snd (calculate_publication_speed e st g)) (ni_id n))
        = [Minutes (minutes_between t0 (t0 + 60000000 * int k))]"
      using vals row none by blast
    then show "map ar_value
        (speed_results_for (snd (calculate_publication_speed e st g)) (ni_id n))
        = [Minutes (of_nat k)]"
      using minutes_between_whole [OF refl small, of t0] by simp
  qed
  show "\<forall>(t, n, m) \<in> set rest. speed_result_of st (ni_id n) \<noteq> None \<longrightarrow>
      speed_results_for (snd (calculate_publication_speed e st g)) (ni_id n)
        = speed_results_for st (ni_id n)"
    using run speed_loop_kept [of st _ e t0 rest 0] by (auto simp: speed_result_of_None)
  show "speed_results_for (snd (calculate_publication_speed e st g)) (ni_id n0)
      = speed_results_for st (ni_id n0)" if "ni_id n0 \<notin> row_id ` set rest"
    using run speed_loop_untouched [OF that, of e t0 st 0] by simp
  show "news_items (snd (calculate_publication_speed e st g)) = news_items st"
    using run speed_loop_frame [of e t0 rest "(st, 0)"] by simp
  show "news_group_items (snd (calculate_publication_speed e st g)) = news_group_items st"
    using run speed_loop_frame [of e t0 rest "(st, 0)"] by simp
qed

lemma both_grouped_members:
  "timestamped_members both_grouped 1 =
     [(0, flood_early, \<lparr>gi_id = 2, news_group_id = 1, news_item_id = 2,
                         similarity_score = 4 / 5, added_at = 1000\<rparr>),
      (47 * minute, flood_late, \<lparr>gi_id = 1, news_group_id = 1, news_item_id = 1,
                                  similarity_score = 1, added_at = 1000\<rparr>)]"
  by (simp add: timestamped_members_def rows_of_def both_grouped_def grouped_first_def
      flood_early_def flood_late_def sample_item_def minute_def)

lemma grouped_first_members:
  "timestamped_members grouped_first 1 =
     [(47 * minute, flood_late, \<lparr>gi_id = 1, news_group_id = 1, news_item_id = 1,
                                  similarity_score = 1, added_at = 1000\<rparr>)]"
  by (simp add: timestamped_members_def rows_of_def grouped_first_def flood_early_def
      flood_late_def sample_item_def minute_def)

theorem speed_for_later_members_witness:
  "map ar_value (speed_results_for
      (snd (calculate_publication_speed (sample_env 0) both_grouped 1)) (ni_id flood_late))
     = [Minutes 47]
   \<and> (\<exists>k. fst (calculate_publication_speed (sample_env 0) both_grouped 1) = Success 1 k)
   \<and> speed_results_for (snd (calculate_publication_speed (sample_env 0) both_grouped 1))
       (ni_id flood_early) = speed_results_for both_grouped (ni_id flood_early)
   \<and> calculate_publication_speed (sample_env 0) grouped_first 1
     = (Insufficient_items, grouped_first)"
proof -
  let ?m1 = "\<lparr>gi_id = 1, news_group_id = 1, news_item_id = 1, similarity_score = 1,
              added_at = 1000\<rparr>"
  let ?m2 = "\<lparr>gi_id = 2, news_group_id = 1, news_item_id = 2, similarity_score = 4 / 5,
              added_at = 1000\<rparr>"
  let ?g = "\<lparr>ng_id = 1, main_title = title flood_late, creation_timestamp = 1000\<rparr>"
  have g2: "get_news_group both_grouped 1 = Some ?g"
    by (simp add: get_news_group_def both_grouped_def grouped_first_def)
  have g1: "get_news_group grouped_first 1 = Some ?g"
    by (simp add: get_news_group_def grouped_first_def)
  have keys: "distinct (map ni_id (news_items both_grouped))"
    by (simp add: both_grouped_def grouped_first_def flood_early_def flood_late_def
        sample_item_def)
  have hyp: "distinct (map ni_id (news_items both_grouped))
      \<and> timestamped_members both_grouped 1 = (0, flood_early, ?m2) # [(47 * minute, flood_late, ?m1)]
      \<and> [(47 * minute, flood_late, ?m1)] \<noteq> []"
    using keys both_grouped_members by simp
  have none: "speed_result_of both_grouped (ni_id flood_late) = None"
    by (simp add: speed_result_of_def both_grouped_def grouped_first_def)
  have few: "length (timestamped_members grouped_first 1) < 2"
    using grouped_first_members by simp
  have other: "ni_id flood_early \<notin> row_id ` set [(47 * minute, flood_late, ?m1)]"
    by (simp add: row_id_def flood_early_def flood_late_def sample_item_def)
  let ?st' = "snd (calculate_publication_speed (sample_env 0) both_grouped 1)"
  have whole: "\<forall>(t, n, m) \<in> set [(47 * minute, flood_late, ?m1)].
      speed_result_of both_grouped (ni_id n) = None
      \<and> t = 0 + 60000000 * int 47 \<and> 60 * 47 < (2 :: nat) ^ 53 \<longrightarrow>
      map ar_value (speed_results_for ?st' (ni_id n)) = [Minutes (of_nat 47)]"
    and success: "\<exists>k. fst (calculate_publication_speed (sample_env 0) both_grouped 1)
      = Success 1 k"
    and first: "ni_id flood_early \<notin> row_id ` set [(47 * minute, flood_late, ?m1)] \<longrightarrow>
      speed_results_for ?st' (ni_id flood_early)
      = speed_results_for both_grouped (ni_id flood_early)"
    using speed_for_later_members [OF g2, of "sample_env 0" 0 flood_early ?m2
        "[(47 * minute, flood_late, ?m1)]" 47] hyp
    by blast+
  have "map ar_value (speed_results_for ?st' (ni_id flood_late)) = [Minutes 47]"
    using whole none by (simp add: minute_def)
  moreover have "speed_results_for ?st' (ni_id flood_early)
      = speed_results_for both_grouped (ni_id flood_early)"
    using first other by blast
  moreover have "calculate_publication_speed (sample_env 0) grouped_first 1
      = (Insufficient_items, grouped_first)"
    using speed_for_later_members [OF g1, of "sample_env 0"] few by blast
  ultimately show ?thesis using success by blast
qed

text \<open>
  C5 as stated fails for the earliest member: in a group of two timestamped members
  without speed results, the item published first has a known publish time and no
  speed result, and after the task it still has none.
\<close>

theorem speed_earliest_member_counterexample:
  "publication_timestamp flood_early = Some 0
   \<and> ni_id flood_early \<in> set (member_ids both_grouped 1)
   \<and> length (timestamped_members both_grouped 1) = 2
   \<and> speed_results_for both_grouped (ni_id flood_early) = []
   \<and> speed_results_for (snd (calculate_publication_speed (sample_env 0) both_grouped 1))
       (ni_id flood_early) = []"
proof -
  have g: "get_news_group both_grouped 1 =
      Some \<lparr>ng_id = 1, main_title = title flood_late, creation_timestamp = 1000\<rparr>"
    by (simp add: get_news_group_def both_grouped_def grouped_first_def)
  have none: "speed_result_of both_grouped (ni_id flood_late) = None"
    by (simp add: speed_result_of_def both_grouped_def grouped_first_def)
  have a: "calculate_publication_speed (sample_env 0) both_grouped 1 =
      (Success 1 1,
       add_speed_result (sample_env 0) both_grouped (ni_id flood_late)
         (minutes_between 0 (47 * minute)) 0)"
    using g none both_grouped_members
    by (simp add: calculate_publication_speed_def Let_def)
  have ids: "ni_id flood_early = 2" "ni_id flood_late = 1"
    by (simp_all add: flood_early_def flood_late_def sample_item_def)
  have b: "speed_results_for both_grouped (ni_id flood_early) = []"
    by (simp add: speed_results_for_def speed_results_def both_grouped_def grouped_first_def)
  have c: "speed_results_for (snd (calculate_publication_speed (sample_env 0) both_grouped 1))
       (ni_id flood_early) = []"
    unfolding a snd_conv using b by (simp add: speed_results_for_add ids)
  have d: "ni_id flood_early \<in> set (member_ids both_grouped 1)"
    by (simp add: ids member_ids_def both_grouped_def grouped_first_def)
  have e: "length (timestamped_members both_grouped 1) = 2"
    using both_grouped_members by simp
  have f: "publication_timestamp flood_early = Some 0"
    by (simp add: flood_early_def sample_item_def)
  show ?thesis using b c d e f by simp
qed




































end
